theory Spec2Isabelle
  imports Main "HOL-Library.Char_ord" "HOL-Library.List_Lexorder"
begin

section \<open>The argument parser of argparser.h\<close>

text \<open>
  A shallow embedding of class \<open>argparse::argument_parser\<close> (src/src/argparser.h): the value
  slots, the option definitions, the builder, the tokenizing \<open>Parser\<close> and the validation
  pass of \<open>parse_args\<close>.

  Conventions.
  \<^item> A C++ object that is mutated in place is a record that is passed in and returned.
  \<^item> The variables an option writes to (\<open>TValue& mValue\<close>) live in a store
    \<open>memory\<close>, addressed by numbers, so that two options bound to one variable alias.
  \<^item> A C++ exception is a value of type \<open>exn\<close>. An operation that can throw after it has
    already mutated its object returns an \<open>outcome\<close>: the state reached, and whether an
    exception is in flight.
  \<^item> \<open>int\<close> counters are unbounded integers: they only count assignments made in one
    parse. \<open>size_t\<close> indices are natural numbers.
  \<^item> The string converter \<open>from_string<T>::convert\<close> (convert.h) is a parameter of
    each slot; the help formatter only writes to a stream, which is outside the model.
\<close>

subsection \<open>Exceptions, error codes, results\<close>

datatype EExitMode = EXIT_TERMINATE | EXIT_THROW | EXIT_RETURN

datatype EError =
    UNKNOWN_OPTION
  | EXCLUSIVE_OPTION
  | MISSING_OPTION
  | MISSING_OPTION_GROUP
  | MISSING_ARGUMENT
  | CONVERSION_ERROR
  | INVALID_CHOICE
  | FLAG_PARAMETER
  | HELP_REQUESTED

text \<open>
  The exception classes that occur: \<open>InvalidChoiceError\<close> (derived from
  \<open>std::invalid_argument\<close>), \<open>std::invalid_argument\<close> and \<open>std::out_of_range\<close> (what a
  converter throws, and what the builder throws), \<open>ParserTerminated\<close>, \<open>MixingGroupTypes\<close>,
  \<open>RequiredExclusiveOption\<close>, and any other exception a converter may throw.
\<close>

datatype exn =
    InvalidChoiceError string
  | invalid_argument string
  | out_of_range string
  | ParserTerminated string EError
  | MixingGroupTypes string
  | RequiredExclusiveOption string string
  | other_exception string

datatype 's outcome = Normal 's | Thrown exn 's

fun state_of :: "'s outcome \<Rightarrow> 's" where
  "state_of (Normal s) = s"
| "state_of (Thrown e s) = s"

text \<open>Sequencing of statements: an exception in flight skips what follows.\<close>

fun and_then :: "'s outcome \<Rightarrow> ('s \<Rightarrow> 's outcome) \<Rightarrow> 's outcome" where
  "and_then (Normal s) f = f s"
| "and_then (Thrown e s) f = Thrown e s"

record ParseError =
  option :: string
  errorCode :: EError

record ParseResult =
  ignoredArguments :: "string list"
  errors :: "ParseError list"

definition ParseResult_clear :: "ParseResult \<Rightarrow> ParseResult" where
  "ParseResult_clear r = r\<lparr>ignoredArguments := [], errors := []\<rparr>"

subsection \<open>Value slots\<close>

text \<open>
  A destination variable holds a scalar or a \<open>std::vector\<close>. \<open>elems\<close> reads a vector
  variable; the C++ types make sure that a vector slot refers to a vector.
\<close>

datatype 'v Dest = Scalar 'v | Vector "'v list"

fun elems :: "'v Dest \<Rightarrow> 'v list" where
  "elems (Vector xs) = xs"
| "elems (Scalar x) = []"

type_synonym 'v memory = "nat \<Rightarrow> 'v Dest"

text \<open>
  The dynamic class of a \<open>Value\<close>: \<open>VoidValue\<close>, \<open>ConvertedValue<T>\<close> (address of
  \<open>mValue\<close>, \<open>mConvert\<close>, and the value-initialised \<open>T{}\<close> that \<open>doReset\<close> stores),
  \<open>ConvertedValue<std::vector<T>>\<close> (address of \<open>mValue\<close>, \<open>mConvert\<close>), or a class
  that the user has derived from \<open>Value\<close> and handed to \<open>add_argument\<close>, which copies
  it into the option (\<open>CustomValue\<close>, as the class of that name in
  test/argparser_t.cpp): the address of the variable it refers to, its \<open>doSetValue\<close>,
  which computes the new content of the variable from the string and the old content and
  may throw after it has written, and its \<open>doReset\<close> if the class overrides it. A class
  that does not override it inherits \<open>Value::doReset\<close>, which does nothing.
\<close>

datatype 'v ValueKind =
    VoidValue
  | ConvertedValue nat "string \<Rightarrow> exn + 'v" 'v
  | ConvertedVector nat "string \<Rightarrow> exn + 'v"
  | CustomValue nat "string \<Rightarrow> 'v Dest \<Rightarrow> 'v Dest outcome" "('v Dest \<Rightarrow> 'v Dest) option"

record 'v Value =
  mAssignCount :: int
  mOptionAssignCount :: int
  mHasErrors :: bool
  kind :: "'v ValueKind"

definition new_Value :: "'v ValueKind \<Rightarrow> 'v Value" where
  "new_Value k = \<lparr>mAssignCount = 0, mOptionAssignCount = 0, mHasErrors = False, kind = k\<rparr>"

text \<open>
  \<open>doSetValue\<close>: \<open>var = mConvert(value)\<close>, or \<open>var.push_back(mConvert(value))\<close> for a
  vector. An exception of the converter leaves the variable as it was. The \<open>doSetValue\<close>
  of a user's class is the user's code.
\<close>

fun doSetValue :: "'v ValueKind \<Rightarrow> string \<Rightarrow> 'v memory \<Rightarrow> 'v memory outcome" where
  "doSetValue VoidValue val mem = Normal mem"
| "doSetValue (ConvertedValue a conv e) val mem =
     (case conv val of Inl x \<Rightarrow> Thrown x mem | Inr c \<Rightarrow> Normal (mem(a := Scalar c)))"
| "doSetValue (ConvertedVector a conv) val mem =
     (case conv val of
        Inl x \<Rightarrow> Thrown x mem
      | Inr c \<Rightarrow> Normal (mem(a := Vector (elems (mem a) @ [c]))))"
| "doSetValue (CustomValue a set_fn reset_fn) val mem =
     (case set_fn val (mem a) of
        Normal d \<Rightarrow> Normal (mem(a := d))
      | Thrown x d \<Rightarrow> Thrown x (mem(a := d)))"

text \<open>
  \<open>doReset\<close>: \<open>mValue = {}\<close> in \<open>ConvertedValue\<close>; the empty body of \<open>Value::doReset\<close>
  in \<open>VoidValue\<close> and in a user's class that does not override it.
\<close>

fun doReset :: "'v ValueKind \<Rightarrow> 'v memory \<Rightarrow> 'v memory" where
  "doReset VoidValue mem = mem"
| "doReset (ConvertedValue a conv e) mem = mem(a := Scalar e)"
| "doReset (ConvertedVector a conv) mem = mem(a := Vector [])"
| "doReset (CustomValue a set_fn None) mem = mem"
| "doReset (CustomValue a set_fn (Some reset_fn)) mem = mem(a := reset_fn (mem a))"

text \<open>\<open>Value::setValue\<close>: both counters are incremented, then \<open>doSetValue\<close> runs.\<close>

definition Value_setValue ::
  "string \<Rightarrow> 'v Value \<times> 'v memory \<Rightarrow> ('v Value \<times> 'v memory) outcome" where
  "Value_setValue val vm =
     (let v1 = (fst vm)\<lparr>mAssignCount := mAssignCount (fst vm) + 1\<rparr>;
          v2 = v1\<lparr>mOptionAssignCount := mOptionAssignCount v1 + 1\<rparr>
      in case doSetValue (kind v2) val (snd vm) of
           Thrown x mem' \<Rightarrow> Thrown x (v2, mem')
         | Normal mem' \<Rightarrow> Normal (v2, mem'))"

definition markBadArgument :: "'v Value \<Rightarrow> 'v Value" where
  "markBadArgument v = v\<lparr>mOptionAssignCount := mOptionAssignCount v + 1, mHasErrors := True\<rparr>"

definition getAssignCount :: "'v Value \<Rightarrow> int" where
  "getAssignCount v = mAssignCount v"

definition getOptionAssignCount :: "'v Value \<Rightarrow> int" where
  "getOptionAssignCount v = mOptionAssignCount v"

definition Value_onOptionStarted :: "'v Value \<Rightarrow> 'v Value" where
  "Value_onOptionStarted v = v\<lparr>mOptionAssignCount := 0\<rparr>"

definition Value_reset :: "'v Value \<times> 'v memory \<Rightarrow> 'v Value \<times> 'v memory" where
  "Value_reset vm =
     ((fst vm)\<lparr>mAssignCount := 0, mOptionAssignCount := 0, mHasErrors := False\<rparr>,
      doReset (kind (fst vm)) (snd vm))"

subsection \<open>Option groups\<close>

record OptionGroup =
  mName :: string
  mIsRequired :: bool
  mIsExclusive :: bool

definition new_OptionGroup :: "string \<Rightarrow> bool \<Rightarrow> OptionGroup" where
  "new_OptionGroup name isExcl = \<lparr>mName = name, mIsRequired = False, mIsExclusive = isExcl\<rparr>"

definition OptionGroup_setRequired :: "bool \<Rightarrow> OptionGroup \<Rightarrow> OptionGroup" where
  "OptionGroup_setRequired isReq g = (if \<not> mIsRequired g then g\<lparr>mIsRequired := isReq\<rparr> else g)"

subsection \<open>Option definitions\<close>

text \<open>
  \<open>mpValue\<close> is owned by the option (\<open>std::unique_ptr\<close>), so the slot is a field.
  \<open>mpGroup\<close> is a \<open>shared_ptr\<close> to a group that the parser's \<open>mGroups\<close> owns as well; it
  is the key of the group in \<open>mGroups\<close>. \<open>mpAssignAction\<close> is user code behind a virtual
  call; the model covers the actions that compute the string to assign (or none), as the
  base class \<open>AssignAction\<close> does.
\<close>

record 'v Option =
  mpValue :: "'v Value"
  mpAssignAction :: "(string \<Rightarrow> string option) option"
  mShortName :: string
  mLongName :: string
  mMetavar :: string
  mHelp :: string
  mFlagValue :: string
  mChoices :: "string list"
  mpGroup :: "string option"
  mMinArgs :: int
  mMaxArgs :: int
  mIsRequired_opt :: bool
  mIsVectorValue :: bool

definition new_Option :: "'v ValueKind \<Rightarrow> bool \<Rightarrow> 'v Option" where
  "new_Option k isVec =
     \<lparr>mpValue = new_Value k, mpAssignAction = None, mShortName = [], mLongName = [],
      mMetavar = [], mHelp = [], mFlagValue = ''1'', mChoices = [], mpGroup = None,
      mMinArgs = 0, mMaxArgs = 0, mIsRequired_opt = False, mIsVectorValue = isVec\<rparr>"

text \<open>
  The two constructors of \<open>Option\<close>: for a variable or an object of a class derived
  from \<open>Value\<close>, and for a vector. The object of a derived class is copied into the
  option; it is one that has just been constructed, so its counters are 0.
\<close>

fun Option_ctor :: "'v ValueKind \<Rightarrow> 'v Option" where
  "Option_ctor (ConvertedVector a conv) = new_Option (ConvertedVector a conv) True"
| "Option_ctor k = new_Option k False"

definition AssignAction_assign :: "string \<Rightarrow> string option" where
  "AssignAction_assign val = Some val"

definition setShortName :: "string \<Rightarrow> 'v Option \<Rightarrow> 'v Option" where
  "setShortName name opt = opt\<lparr>mShortName := name\<rparr>"

definition setLongName :: "string \<Rightarrow> 'v Option \<Rightarrow> 'v Option" where
  "setLongName name opt = opt\<lparr>mLongName := name\<rparr>"

definition setHelp :: "string \<Rightarrow> 'v Option \<Rightarrow> 'v Option" where
  "setHelp h opt = opt\<lparr>mHelp := h\<rparr>"

definition setNArgs :: "int \<Rightarrow> 'v Option \<Rightarrow> 'v Option" where
  "setNArgs count opt = opt\<lparr>mMinArgs := max 0 count, mMaxArgs := max 0 count\<rparr>"

definition setMinArgs :: "int \<Rightarrow> 'v Option \<Rightarrow> 'v Option" where
  "setMinArgs count opt = opt\<lparr>mMinArgs := max 0 count, mMaxArgs := - 1\<rparr>"

definition setMaxArgs :: "int \<Rightarrow> 'v Option \<Rightarrow> 'v Option" where
  "setMaxArgs count opt = opt\<lparr>mMinArgs := 0, mMaxArgs := max 0 count\<rparr>"

definition setRequired :: "bool \<Rightarrow> 'v Option \<Rightarrow> 'v Option" where
  "setRequired isReq opt = opt\<lparr>mIsRequired_opt := isReq\<rparr>"

definition setFlagValue :: "string \<Rightarrow> 'v Option \<Rightarrow> 'v Option" where
  "setFlagValue val opt = opt\<lparr>mFlagValue := val\<rparr>"

definition setChoices :: "string list \<Rightarrow> 'v Option \<Rightarrow> 'v Option" where
  "setChoices cs opt = opt\<lparr>mChoices := cs\<rparr>"

definition setAction :: "(string \<Rightarrow> string option) option \<Rightarrow> 'v Option \<Rightarrow> 'v Option" where
  "setAction act opt = opt\<lparr>mpAssignAction := act\<rparr>"

definition setGroup :: "string option \<Rightarrow> 'v Option \<Rightarrow> 'v Option" where
  "setGroup g opt = opt\<lparr>mpGroup := g\<rparr>"

definition isRequired :: "'v Option \<Rightarrow> bool" where
  "isRequired opt = mIsRequired_opt opt"

definition getName :: "'v Option \<Rightarrow> string" where
  "getName opt = (if mLongName opt = [] then mShortName opt else mLongName opt)"

definition hasName :: "string \<Rightarrow> 'v Option \<Rightarrow> bool" where
  "hasName name opt = (name = mShortName opt \<or> name = mLongName opt)"

definition getFlagValue :: "'v Option \<Rightarrow> string" where
  "getFlagValue opt = mFlagValue opt"

definition hasVectorValue :: "'v Option \<Rightarrow> bool" where
  "hasVectorValue opt = mIsVectorValue opt"

definition acceptsAnyArguments :: "'v Option \<Rightarrow> bool" where
  "acceptsAnyArguments opt = (mMinArgs opt > 0 \<or> mMaxArgs opt \<noteq> 0)"

definition willAcceptArgument :: "'v Option \<Rightarrow> bool" where
  "willAcceptArgument opt =
     (mMaxArgs opt < 0 \<or> getOptionAssignCount (mpValue opt) < mMaxArgs opt)"

definition needsMoreArguments :: "'v Option \<Rightarrow> bool" where
  "needsMoreArguments opt = (getOptionAssignCount (mpValue opt) < mMinArgs opt)"

definition wasAssigned :: "'v Option \<Rightarrow> bool" where
  "wasAssigned opt = (getAssignCount (mpValue opt) > 0)"

definition wasAssignedThroughThisOption :: "'v Option \<Rightarrow> bool" where
  "wasAssignedThroughThisOption opt = (getOptionAssignCount (mpValue opt) > 0)"

definition Option_onOptionStarted :: "'v Option \<Rightarrow> 'v Option" where
  "Option_onOptionStarted opt = opt\<lparr>mpValue := Value_onOptionStarted (mpValue opt)\<rparr>"

definition resetValue :: "'v Option \<times> 'v memory \<Rightarrow> 'v Option \<times> 'v memory" where
  "resetValue om =
     (let vm = Value_reset (mpValue (fst om), snd om)
      in ((fst om)\<lparr>mpValue := fst vm\<rparr>, snd vm))"

text \<open>The slot's \<open>setValue\<close>, run on the slot of an option.\<close>

definition slot_setValue ::
  "string \<Rightarrow> 'v Option \<times> 'v memory \<Rightarrow> ('v Option \<times> 'v memory) outcome" where
  "slot_setValue val om =
     (case Value_setValue val (mpValue (fst om), snd om) of
        Normal vm \<Rightarrow> Normal ((fst om)\<lparr>mpValue := fst vm\<rparr>, snd vm)
      | Thrown x vm \<Rightarrow> Thrown x ((fst om)\<lparr>mpValue := fst vm\<rparr>, snd vm))"

text \<open>\<open>Option::setValue\<close>: the choice check, the assign action, the slot.\<close>

definition Option_setValue ::
  "string \<Rightarrow> 'v Option \<times> 'v memory \<Rightarrow> ('v Option \<times> 'v memory) outcome" where
  "Option_setValue val om =
     (if mChoices (fst om) \<noteq> [] \<and> val \<notin> set (mChoices (fst om))
      then Thrown (InvalidChoiceError val)
             ((fst om)\<lparr>mpValue := markBadArgument (mpValue (fst om))\<rparr>, snd om)
      else case mpAssignAction (fst om) of
             Some act \<Rightarrow>
               (case act val of
                  Some newValue \<Rightarrow> slot_setValue newValue om
                | None \<Rightarrow> Normal om)
           | None \<Rightarrow> slot_setValue val om)"

subsection \<open>The parser object and its builder\<close>

text \<open>
  \<open>std::set\<close> of help names as a set, \<open>mGroups\<close> (a \<open>std::map\<close> that is only searched
  and extended) as a map. \<open>variables\<close> is the store of the destination variables.
\<close>

record 'v argument_parser =
  exitMode :: EExitMode
  mOptions :: "'v Option list"
  mPositional :: "'v Option list"
  mHelpOptionNames :: "string set"
  mGroups :: "string \<rightharpoonup> OptionGroup"
  mpActiveGroup :: "string option"
  variables :: "'v memory"

definition new_argument_parser :: "'v memory \<Rightarrow> 'v argument_parser" where
  "new_argument_parser mem =
     \<lparr>exitMode = EXIT_TERMINATE, mOptions = [], mPositional = [], mHelpOptionNames = {},
      mGroups = Map.empty, mpActiveGroup = None, variables = mem\<rparr>"

definition on_exit_terminate :: "'v argument_parser \<Rightarrow> 'v argument_parser" where
  "on_exit_terminate ap = ap\<lparr>exitMode := EXIT_TERMINATE\<rparr>"

definition on_exit_throw :: "'v argument_parser \<Rightarrow> 'v argument_parser" where
  "on_exit_throw ap = ap\<lparr>exitMode := EXIT_THROW\<rparr>"

definition on_exit_return :: "'v argument_parser \<Rightarrow> 'v argument_parser" where
  "on_exit_return ap = ap\<lparr>exitMode := EXIT_RETURN\<rparr>"

text \<open>\<open>option.getGroup()\<close>, dereferenced.\<close>

definition getGroup :: "'v argument_parser \<Rightarrow> 'v Option \<Rightarrow> OptionGroup option" where
  "getGroup ap opt = (case mpGroup opt of None \<Rightarrow> None | Some k \<Rightarrow> mGroups ap k)"

text \<open>\<open>std::isspace\<close> and \<open>tolower\<close> in the "C" locale.\<close>

definition isspace :: "char \<Rightarrow> bool" where
  "isspace ch = (ch \<in> set [CHR 0x20, CHR 0x09, CHR 0x0A, CHR 0x0B, CHR 0x0C, CHR 0x0D])"

definition tolower :: "char \<Rightarrow> char" where
  "tolower ch =
     (if 65 \<le> (of_char ch :: nat) \<and> (of_char ch :: nat) \<le> 90
      then char_of ((of_char ch :: nat) + 32) else ch)"

definition has_dash :: "string \<Rightarrow> bool" where
  "has_dash name = (case name of [] \<Rightarrow> False | c # cs \<Rightarrow> c = CHR ''-'')"

definition isOption :: "string list \<Rightarrow> bool" where
  "isOption names = list_all has_dash names"

definition isPositional :: "string list \<Rightarrow> bool" where
  "isPositional names = (\<not> list_ex has_dash names)"

text \<open>
  \<open>trySetNames\<close> works on \<open>mOptions.back()\<close>, so what it has set before it throws stays.
\<close>

fun trySetNames_loop :: "string list \<Rightarrow> 'v Option \<Rightarrow> 'v Option outcome" where
  "trySetNames_loop [] opt = Normal opt"
| "trySetNames_loop (name # names) opt =
     (if name = [] \<or> name = ''-'' \<or> name = ''--'' \<or> \<not> has_dash name
      then trySetNames_loop names opt
      else if take 2 name = ''--'' then trySetNames_loop names (setLongName name opt)
      else if take 1 name = ''-'' then
        (if length name > 2
         then Thrown (invalid_argument ''Short option name has too many characters.'') opt
         else trySetNames_loop names (setShortName name opt))
      else trySetNames_loop names opt)"

definition trySetNames :: "string list \<Rightarrow> 'v Option \<Rightarrow> 'v Option outcome" where
  "trySetNames names opt =
     and_then (trySetNames_loop names opt)
       (\<lambda>opt'. if getName opt' = []
                then Thrown (invalid_argument ''An option must have a name.'') opt'
                else Normal opt')"

text \<open>
  An \<open>OptionConfig\<close> refers to one of the two vectors of the parser and an index in it.
\<close>

datatype optref = InOptions nat | InPositional nat

record OptionConfig =
  mIndex :: optref
  mCountWasSet :: bool

fun deref :: "optref \<Rightarrow> 'v argument_parser \<Rightarrow> 'v Option" where
  "deref (InOptions i) ap = mOptions ap ! i"
| "deref (InPositional i) ap = mPositional ap ! i"

fun assign_opt :: "optref \<Rightarrow> 'v Option \<Rightarrow> 'v argument_parser \<Rightarrow> 'v argument_parser" where
  "assign_opt (InOptions i) opt ap = ap\<lparr>mOptions := (mOptions ap)[i := opt]\<rparr>"
| "assign_opt (InPositional i) opt ap = ap\<lparr>mPositional := (mPositional ap)[i := opt]\<rparr>"

definition tryAddArgument ::
  "'v Option \<Rightarrow> string list \<Rightarrow> 'v argument_parser \<Rightarrow> (exn + OptionConfig) \<times> 'v argument_parser"
  where
  "tryAddArgument newOption names0 ap =
     (let names = filter (\<lambda>name. name \<noteq> []) names0 in
      if names = [] then (Inl (invalid_argument ''An argument must have a name.''), ap)
      else if list_ex (\<lambda>name. list_ex isspace name) names
      then (Inl (invalid_argument ''Argument names must not contain spaces.''), ap)
      else if isPositional names then
        (let opt1 = setLongName (if names = [] then ''arg'' else hd names) newOption;
             opt2 = (if hasVectorValue opt1 then setMinArgs 0 opt1 else setNArgs 1 opt1);
             opt3 = (case mpActiveGroup ap of
                       None \<Rightarrow> opt2
                     | Some k \<Rightarrow>
                         (case mGroups ap k of
                            None \<Rightarrow> opt2
                          | Some g \<Rightarrow>
                              if \<not> mIsExclusive g then setGroup (mpActiveGroup ap) opt2
                              else opt2))
         in (Inr \<lparr>mIndex = InPositional (length (mPositional ap)), mCountWasSet = False\<rparr>,
             ap\<lparr>mPositional := mPositional ap @ [opt3]\<rparr>))
      else if isOption names then
        (case trySetNames names newOption of
           Thrown x opt1 \<Rightarrow> (Inl x, ap\<lparr>mOptions := mOptions ap @ [opt1]\<rparr>)
         | Normal opt1 \<Rightarrow>
             (let opt2 = (case mpActiveGroup ap of
                            None \<Rightarrow> opt1
                          | Some k \<Rightarrow> setGroup (mpActiveGroup ap) opt1)
              in (Inr \<lparr>mIndex = InOptions (length (mOptions ap)), mCountWasSet = False\<rparr>,
                  ap\<lparr>mOptions := mOptions ap @ [opt2]\<rparr>)))
      else (Inl (invalid_argument ''The argument must be either positional or an option.''),
            ap))"

definition add_argument ::
  "'v ValueKind \<Rightarrow> string \<Rightarrow> string \<Rightarrow> 'v argument_parser
     \<Rightarrow> (exn + OptionConfig) \<times> 'v argument_parser" where
  "add_argument val name altName ap = tryAddArgument (Option_ctor val) [name, altName] ap"

text \<open>The methods of \<open>OptionConfig\<close> that set the arity, and those used by the parser.\<close>

definition OptionConfig_help ::
  "string \<Rightarrow> OptionConfig \<times> 'v argument_parser \<Rightarrow> OptionConfig \<times> 'v argument_parser" where
  "OptionConfig_help h ca =
     (fst ca, assign_opt (mIndex (fst ca)) (setHelp h (deref (mIndex (fst ca)) (snd ca))) (snd ca))"

definition OptionConfig_required ::
  "bool \<Rightarrow> OptionConfig \<times> 'v argument_parser \<Rightarrow> OptionConfig \<times> 'v argument_parser" where
  "OptionConfig_required isReq ca =
     (fst ca,
      assign_opt (mIndex (fst ca)) (setRequired isReq (deref (mIndex (fst ca)) (snd ca))) (snd ca))"

definition OptionConfig_count ::
  "('v Option \<Rightarrow> 'v Option) \<Rightarrow> OptionConfig \<times> 'v argument_parser
     \<Rightarrow> (exn + OptionConfig) \<times> 'v argument_parser" where
  "OptionConfig_count setter ca =
     (if mCountWasSet (fst ca)
      then (Inl (invalid_argument ''Only one of nargs, minargs and maxargs can be used.''), snd ca)
      else (Inr ((fst ca)\<lparr>mCountWasSet := True\<rparr>),
            assign_opt (mIndex (fst ca)) (setter (deref (mIndex (fst ca)) (snd ca))) (snd ca)))"

definition nargs ::
  "int \<Rightarrow> OptionConfig \<times> 'v argument_parser \<Rightarrow> (exn + OptionConfig) \<times> 'v argument_parser" where
  "nargs count ca = OptionConfig_count (setNArgs count) ca"

definition minargs ::
  "int \<Rightarrow> OptionConfig \<times> 'v argument_parser \<Rightarrow> (exn + OptionConfig) \<times> 'v argument_parser" where
  "minargs count ca = OptionConfig_count (setMinArgs count) ca"

definition maxargs ::
  "int \<Rightarrow> OptionConfig \<times> 'v argument_parser \<Rightarrow> (exn + OptionConfig) \<times> 'v argument_parser" where
  "maxargs count ca = OptionConfig_count (setMaxArgs count) ca"

definition add_help_option2 ::
  "string \<Rightarrow> string \<Rightarrow> 'v argument_parser \<Rightarrow> (exn + OptionConfig) \<times> 'v argument_parser" where
  "add_help_option2 name altName ap =
     (if (name \<noteq> [] \<and> hd name \<noteq> CHR ''-'') \<or> (altName \<noteq> [] \<and> hd altName \<noteq> CHR ''-'')
      then (Inl (invalid_argument ''A help argument must be an option.''), ap)
      else case tryAddArgument (Option_ctor VoidValue) [name, altName] ap of
             (Inl x, ap1) \<Rightarrow> (Inl x, ap1)
           | (Inr cfg, ap1) \<Rightarrow>
               (let ca = OptionConfig_help ''Print this help message and exit.'' (cfg, ap1);
                    ap2 = snd ca;
                    ap3 = (if name \<noteq> []
                           then ap2\<lparr>mHelpOptionNames := insert name (mHelpOptionNames ap2)\<rparr>
                           else ap2);
                    ap4 = (if altName \<noteq> []
                           then ap3\<lparr>mHelpOptionNames := insert altName (mHelpOptionNames ap3)\<rparr>
                           else ap3)
                in (Inr (fst ca), ap4)))"

definition add_help_option ::
  "'v argument_parser \<Rightarrow> (exn + OptionConfig) \<times> 'v argument_parser" where
  "add_help_option ap = add_help_option2 ''--help'' ''-h'' ap"

definition findGroup :: "string \<Rightarrow> 'v argument_parser \<Rightarrow> string option" where
  "findGroup name ap =
     (case mGroups ap (map tolower name) of None \<Rightarrow> None | Some g \<Rightarrow> Some (map tolower name))"

definition addGroup :: "string \<Rightarrow> bool \<Rightarrow> 'v argument_parser \<Rightarrow> string \<times> 'v argument_parser" where
  "addGroup name isExcl ap =
     (map tolower name,
      ap\<lparr>mGroups := (mGroups ap)(map tolower name \<mapsto> new_OptionGroup (map tolower name) isExcl)\<rparr>)"

text \<open>
  \<open>add_group\<close> and \<open>add_exclusive_group\<close> return a \<open>GroupConfig\<close>, which is the active
  group; \<open>GroupConfig_required\<close> is its method \<open>required\<close>.
\<close>

definition add_group :: "string \<Rightarrow> 'v argument_parser \<Rightarrow> 'v argument_parser outcome" where
  "add_group name ap =
     (case findGroup name ap of
        Some k \<Rightarrow>
          (if (case mGroups ap k of None \<Rightarrow> False | Some g \<Rightarrow> mIsExclusive g)
           then Thrown (MixingGroupTypes name) ap
           else Normal (ap\<lparr>mpActiveGroup := Some k\<rparr>))
      | None \<Rightarrow>
          (let ka = addGroup name False ap in Normal ((snd ka)\<lparr>mpActiveGroup := Some (fst ka)\<rparr>)))"

definition add_exclusive_group :: "string \<Rightarrow> 'v argument_parser \<Rightarrow> 'v argument_parser outcome"
  where
  "add_exclusive_group name ap =
     (case findGroup name ap of
        Some k \<Rightarrow>
          (if (case mGroups ap k of None \<Rightarrow> False | Some g \<Rightarrow> \<not> mIsExclusive g)
           then Thrown (MixingGroupTypes name) ap
           else Normal (ap\<lparr>mpActiveGroup := Some k\<rparr>))
      | None \<Rightarrow>
          (let ka = addGroup name True ap in Normal ((snd ka)\<lparr>mpActiveGroup := Some (fst ka)\<rparr>)))"

definition GroupConfig_required :: "bool \<Rightarrow> 'v argument_parser \<Rightarrow> 'v argument_parser" where
  "GroupConfig_required isReq ap =
     (case mpActiveGroup ap of
        None \<Rightarrow> ap
      | Some k \<Rightarrow>
          (case mGroups ap k of
             None \<Rightarrow> ap
           | Some g \<Rightarrow> ap\<lparr>mGroups := (mGroups ap)(k \<mapsto> OptionGroup_setRequired isReq g)\<rparr>))"

definition end_group :: "'v argument_parser \<Rightarrow> 'v argument_parser" where
  "end_group ap = ap\<lparr>mpActiveGroup := None\<rparr>"

subsection \<open>The tokenizing parser\<close>

record 'v Parser =
  mArgParser :: "'v argument_parser"
  mIgnoreOptions :: bool
  mPosition :: nat
  mpActiveOption :: "nat option"
  mResult :: ParseResult

definition new_Parser :: "'v argument_parser \<Rightarrow> 'v Parser" where
  "new_Parser argParser =
     \<lparr>mArgParser = argParser, mIgnoreOptions = False, mPosition = 0, mpActiveOption = None,
      mResult = \<lparr>ignoredArguments = [], errors = []\<rparr>\<rparr>"

definition addError :: "string \<Rightarrow> EError \<Rightarrow> 'v Parser \<Rightarrow> 'v Parser" where
  "addError optionName code p =
     p\<lparr>mResult := (mResult p)
          \<lparr>errors := errors (mResult p) @ [\<lparr>option = optionName, errorCode = code\<rparr>]\<rparr>\<rparr>"

text \<open>\<open>findOption\<close> returns a pointer into \<open>mOptions\<close>: the index of the first match.\<close>

fun find_named :: "string \<Rightarrow> 'v Option list \<Rightarrow> nat option" where
  "find_named optionName [] = None"
| "find_named optionName (opt # opts) =
     (if hasName optionName opt then Some 0 else map_option Suc (find_named optionName opts))"

definition findOption :: "string \<Rightarrow> 'v Parser \<Rightarrow> nat option" where
  "findOption optionName p = find_named optionName (mOptions (mArgParser p))"

definition haveActiveOption :: "'v Parser \<Rightarrow> bool" where
  "haveActiveOption p = (mpActiveOption p \<noteq> None)"

text \<open>The option a reference points to, written back together with the variables.\<close>

definition write_back :: "optref \<Rightarrow> 'v Option \<times> 'v memory \<Rightarrow> 'v Parser \<Rightarrow> 'v Parser" where
  "write_back r om p =
     p\<lparr>mArgParser := (assign_opt r (fst om) (mArgParser p))\<lparr>variables := snd om\<rparr>\<rparr>"

text \<open>
  \<open>Parser::setValue\<close>: the three \<open>catch\<close> clauses, in their order; any other exception
  passes through.
\<close>

fun caught :: "exn \<Rightarrow> EError option" where
  "caught (InvalidChoiceError v) = Some INVALID_CHOICE"
| "caught (invalid_argument m) = Some CONVERSION_ERROR"
| "caught (out_of_range m) = Some CONVERSION_ERROR"
| "caught x = None"

definition Parser_setValue :: "optref \<Rightarrow> string \<Rightarrow> 'v Parser \<Rightarrow> 'v Parser outcome" where
  "Parser_setValue r val p =
     (case Option_setValue val (deref r (mArgParser p), variables (mArgParser p)) of
        Normal om \<Rightarrow> Normal (write_back r om p)
      | Thrown x om \<Rightarrow>
          (case caught x of
             Some code \<Rightarrow> Normal (addError (getName (fst om)) code (write_back r om p))
           | None \<Rightarrow> Thrown x (write_back r om p)))"

text \<open>
  \<open>closeOption\<close> calls \<open>option.setValue\<close> itself, not \<open>Parser::setValue\<close>: an exception
  leaves \<open>closeOption\<close> before \<open>mpActiveOption\<close> is cleared.
\<close>

definition closeOption :: "'v Parser \<Rightarrow> 'v Parser outcome" where
  "closeOption p =
     (case mpActiveOption p of
        None \<Rightarrow> Normal (p\<lparr>mpActiveOption := None\<rparr>)
      | Some i \<Rightarrow>
          (let opt = deref (InOptions i) (mArgParser p) in
           if needsMoreArguments opt
           then Normal ((addError (getName opt) MISSING_ARGUMENT p)\<lparr>mpActiveOption := None\<rparr>)
           else if willAcceptArgument opt \<and> \<not> wasAssignedThroughThisOption opt
           then (case Option_setValue (getFlagValue opt) (opt, variables (mArgParser p)) of
                   Normal om \<Rightarrow> Normal ((write_back (InOptions i) om p)\<lparr>mpActiveOption := None\<rparr>)
                 | Thrown x om \<Rightarrow> Thrown x (write_back (InOptions i) om p))
           else Normal (p\<lparr>mpActiveOption := None\<rparr>)))"

definition push_ignored :: "string \<Rightarrow> 'v Parser \<Rightarrow> 'v Parser" where
  "push_ignored arg p =
     p\<lparr>mResult := (mResult p)\<lparr>ignoredArguments := ignoredArguments (mResult p) @ [arg]\<rparr>\<rparr>"

text \<open>The \<open>while\<close> loop of \<open>addFreeArgument\<close>, up to the final \<open>push_back\<close>.\<close>

function addFreeArgument_while :: "string \<Rightarrow> 'v Parser \<Rightarrow> 'v Parser outcome" where
  "addFreeArgument_while arg p =
     (if mPosition p < length (mPositional (mArgParser p)) then
        (if willAcceptArgument (deref (InPositional (mPosition p)) (mArgParser p))
         then Parser_setValue (InPositional (mPosition p)) arg p
         else addFreeArgument_while arg (p\<lparr>mPosition := mPosition p + 1\<rparr>))
      else Normal (push_ignored arg p))"
  by pat_completeness auto
termination
  by (relation "measure (\<lambda>(arg, p). length (mPositional (mArgParser p)) - mPosition p)") auto

declare addFreeArgument_while.simps [simp del]

definition addFreeArgument :: "string \<Rightarrow> 'v Parser \<Rightarrow> 'v Parser outcome" where
  "addFreeArgument arg p =
     (if mPosition p < length (mPositional (mArgParser p)) then
        (if willAcceptArgument (deref (InPositional (mPosition p)) (mArgParser p))
         then Parser_setValue (InPositional (mPosition p)) arg p
         else addFreeArgument_while arg (p\<lparr>mPosition := mPosition p + 1\<rparr>))
      else Normal (push_ignored arg p))"

text \<open>\<open>name.find("=")\<close>: the position of the first \<open>=\<close>, or \<open>npos\<close>.\<close>

fun find_eq :: "string \<Rightarrow> nat option" where
  "find_eq [] = None"
| "find_eq (c # cs) = (if c = CHR ''='' then Some 0 else map_option Suc (find_eq cs))"

definition on_started :: "nat \<Rightarrow> 'v Parser \<Rightarrow> 'v Parser" where
  "on_started i p =
     p\<lparr>mArgParser := assign_opt (InOptions i)
          (Option_onOptionStarted (deref (InOptions i) (mArgParser p))) (mArgParser p)\<rparr>"

definition name_part :: "string \<Rightarrow> string" where
  "name_part name0 = (case find_eq name0 of None \<Rightarrow> name0 | Some eqpos \<Rightarrow> take eqpos name0)"

definition arg_part :: "string \<Rightarrow> string" where
  "arg_part name0 = (case find_eq name0 of None \<Rightarrow> [] | Some eqpos \<Rightarrow> drop (eqpos + 1) name0)"

definition startOption :: "string \<Rightarrow> 'v Parser \<Rightarrow> 'v Parser outcome" where
  "startOption name0 p0 =
     and_then (if haveActiveOption p0 then closeOption p0 else Normal p0)
       (\<lambda>p.
          let arg = arg_part name0; name = name_part name0
          in case findOption name p of
               Some i \<Rightarrow>
                 and_then
                   (let p1 = on_started i p in
                    if willAcceptArgument (deref (InOptions i) (mArgParser p1))
                    then Normal (p1\<lparr>mpActiveOption := Some i\<rparr>)
                    else Parser_setValue (InOptions i)
                           (getFlagValue (deref (InOptions i) (mArgParser p1))) p1)
                   (\<lambda>p2.
                      if arg \<noteq> [] then
                        (if willAcceptArgument (deref (InOptions i) (mArgParser p2))
                         then Parser_setValue (InOptions i) arg p2
                         else Normal (addError name FLAG_PARAMETER p2))
                      else Normal p2)
             | None \<Rightarrow> Normal (addError name UNKNOWN_OPTION p))"

text \<open>The loop over the characters of a cluster such as \<open>-abd\<close>.\<close>

fun startOption_each :: "string \<Rightarrow> 'v Parser \<Rightarrow> 'v Parser outcome" where
  "startOption_each [] p = Normal p"
| "startOption_each (c # cs) p =
     (case startOption [CHR ''-'', c] p of
        Normal p' \<Rightarrow> startOption_each cs p'
      | Thrown x p' \<Rightarrow> Thrown x p')"

text \<open>The body of the loop of \<open>parse\<close>, for one argument.\<close>

definition parse_arg :: "string \<Rightarrow> 'v Parser \<Rightarrow> 'v Parser outcome" where
  "parse_arg arg p =
     (if arg = ''--'' then Normal (p\<lparr>mIgnoreOptions := True\<rparr>)
      else if mIgnoreOptions p then addFreeArgument arg p
      else if take 2 arg = ''--'' then startOption arg p
      else if take 1 arg = ''-'' then
        (if length arg = 2 then startOption arg p else startOption_each (drop 1 arg) p)
      else
        (case mpActiveOption p of
           Some i \<Rightarrow>
             (if willAcceptArgument (deref (InOptions i) (mArgParser p))
              then and_then (Parser_setValue (InOptions i) arg p)
                     (\<lambda>p'. if \<not> willAcceptArgument (deref (InOptions i) (mArgParser p'))
                           then closeOption p' else Normal p')
              else Normal p)
         | None \<Rightarrow> addFreeArgument arg p))"

fun parse_loop :: "string list \<Rightarrow> 'v Parser \<Rightarrow> 'v Parser outcome" where
  "parse_loop [] p = Normal p"
| "parse_loop (arg # args) p =
     (case parse_arg arg p of
        Normal p' \<Rightarrow> parse_loop args p'
      | Thrown x p' \<Rightarrow> Thrown x p')"

text \<open>
  \<open>Parser::parse\<close>: it clears \<open>mResult\<close>, runs the loop, and closes the option that is
  still active at the end of the input (\<open>parse_end\<close>). The result it returns is
  \<open>mResult\<close> of the final state.
\<close>

definition parse_end :: "'v Parser \<Rightarrow> 'v Parser outcome" where
  "parse_end p = (if haveActiveOption p then closeOption p else Normal p)"

definition parse :: "string list \<Rightarrow> 'v Parser \<Rightarrow> 'v Parser outcome" where
  "parse args p =
     and_then (parse_loop args (p\<lparr>mResult := ParseResult_clear (mResult p)\<rparr>)) parse_end"

subsection \<open>Validation and \<open>parse_args\<close>\<close>

text \<open>
  A \<open>std::map\<close> with string keys that is filled through \<open>operator[]\<close> and then iterated:
  an association list kept in ascending order of the keys (\<open>std::string\<close> compares
  bytewise, as the order on \<open>string\<close> does). \<open>map_modify k f d m\<close> is \<open>m[k] = f(m[k])\<close>,
  where \<open>operator[]\<close> inserts the value-initialised \<open>d\<close> for a new key.
\<close>

fun map_modify :: "string \<Rightarrow> ('a \<Rightarrow> 'a) \<Rightarrow> 'a \<Rightarrow> (string \<times> 'a) list \<Rightarrow> (string \<times> 'a) list" where
  "map_modify k f d [] = [(k, f d)]"
| "map_modify k f d ((k', x) # m) =
     (if k = k' then (k', f x) # m
      else if k < k' then (k, f d) # (k', x) # m
      else (k', x) # map_modify k f d m)"

text \<open>
  \<open>verifyDefinedOptions\<close>: the exception it throws, if any. The constructor of
  \<open>RequiredExclusiveOption\<close> is called with the option's name, then the group's.
\<close>

fun verifyDefinedOptions_loop :: "'v argument_parser \<Rightarrow> 'v Option list \<Rightarrow> exn option" where
  "verifyDefinedOptions_loop ap [] = None"
| "verifyDefinedOptions_loop ap (opt # opts) =
     (if isRequired opt then
        (case getGroup ap opt of
           Some g \<Rightarrow>
             (if mIsExclusive g then Some (RequiredExclusiveOption (getName opt) (mName g))
              else verifyDefinedOptions_loop ap opts)
         | None \<Rightarrow> verifyDefinedOptions_loop ap opts)
      else verifyDefinedOptions_loop ap opts)"

definition verifyDefinedOptions :: "'v argument_parser \<Rightarrow> exn option" where
  "verifyDefinedOptions ap = verifyDefinedOptions_loop ap (mOptions ap)"

definition emplace_error :: "string \<Rightarrow> EError \<Rightarrow> ParseResult \<Rightarrow> ParseResult" where
  "emplace_error optionName code res =
     res\<lparr>errors := errors res @ [\<lparr>option = optionName, errorCode = code\<rparr>]\<rparr>"

fun reportMissingOptions_opts :: "'v Option list \<Rightarrow> ParseResult \<Rightarrow> ParseResult" where
  "reportMissingOptions_opts [] res = res"
| "reportMissingOptions_opts (opt # opts) res =
     reportMissingOptions_opts opts
       (if isRequired opt \<and> \<not> wasAssigned opt
        then emplace_error (getName opt) MISSING_OPTION res else res)"

fun reportMissingOptions_pos :: "'v Option list \<Rightarrow> ParseResult \<Rightarrow> ParseResult" where
  "reportMissingOptions_pos [] res = res"
| "reportMissingOptions_pos (opt # opts) res =
     reportMissingOptions_pos opts
       (if needsMoreArguments opt
        then emplace_error (getName opt) MISSING_ARGUMENT res else res)"

definition reportMissingOptions :: "'v argument_parser \<Rightarrow> ParseResult \<Rightarrow> ParseResult" where
  "reportMissingOptions ap res =
     reportMissingOptions_pos (mPositional ap) (reportMissingOptions_opts (mOptions ap) res)"

text \<open>\<open>reportExclusiveViolations\<close>: the first loop fills \<open>counts\<close>, the second reports.\<close>

fun exclusive_counts ::
  "'v argument_parser \<Rightarrow> 'v Option list \<Rightarrow> (string \<times> string list) list
     \<Rightarrow> (string \<times> string list) list" where
  "exclusive_counts ap [] counts = counts"
| "exclusive_counts ap (opt # opts) counts =
     exclusive_counts ap opts
       (case getGroup ap opt of
          Some g \<Rightarrow>
            (if mIsExclusive g \<and> wasAssigned opt
             then map_modify (mName g) (\<lambda>v. v @ [getName opt]) [] counts
             else counts)
        | None \<Rightarrow> counts)"

fun report_exclusive :: "(string \<times> string list) list \<Rightarrow> ParseResult \<Rightarrow> ParseResult" where
  "report_exclusive [] res = res"
| "report_exclusive (c # cs) res =
     report_exclusive cs
       (if length (snd c) > 1 then emplace_error (hd (snd c)) EXCLUSIVE_OPTION res else res)"

definition reportExclusiveViolations :: "'v argument_parser \<Rightarrow> ParseResult \<Rightarrow> ParseResult" where
  "reportExclusiveViolations ap res =
     report_exclusive (exclusive_counts ap (mOptions ap) []) res"

fun required_counts ::
  "'v argument_parser \<Rightarrow> 'v Option list \<Rightarrow> (string \<times> int) list \<Rightarrow> (string \<times> int) list" where
  "required_counts ap [] counts = counts"
| "required_counts ap (opt # opts) counts =
     required_counts ap opts
       (case getGroup ap opt of
          Some g \<Rightarrow>
            (if mIsRequired g
             then map_modify (mName g) (\<lambda>n. n + (if wasAssigned opt then 1 else 0)) 0 counts
             else counts)
        | None \<Rightarrow> counts)"

fun report_groups :: "(string \<times> int) list \<Rightarrow> ParseResult \<Rightarrow> ParseResult" where
  "report_groups [] res = res"
| "report_groups (c # cs) res =
     report_groups cs
       (if snd c < 1 then emplace_error (fst c) MISSING_OPTION_GROUP res else res)"

definition reportMissingGroups :: "'v argument_parser \<Rightarrow> ParseResult \<Rightarrow> ParseResult" where
  "reportMissingGroups ap res = report_groups (required_counts ap (mOptions ap) []) res"

text \<open>
  What a call of \<open>parse_args\<close> does to its caller: it returns, throws, or ends the process
  (\<open>exit(0)\<close>).
\<close>

datatype 'a returned = Returns 'a | Throws exn | Exits int

definition exit_parser :: "string \<Rightarrow> EError \<Rightarrow> 'v argument_parser \<Rightarrow> ParseResult returned" where
  "exit_parser arg code ap =
     (case exitMode ap of
        EXIT_TERMINATE \<Rightarrow> Exits 0
      | EXIT_THROW \<Rightarrow> Throws (ParserTerminated arg code)
      | EXIT_RETURN \<Rightarrow> Returns \<lparr>ignoredArguments = [], errors = [\<lparr>option = arg, errorCode = code\<rparr>]\<rparr>)"

text \<open>The two loops of \<open>parse_args\<close> that call \<open>resetValue\<close> on every option.\<close>

fun resetValues :: "'v Option list \<Rightarrow> 'v memory \<Rightarrow> 'v Option list \<times> 'v memory" where
  "resetValues [] mem = ([], mem)"
| "resetValues (opt # opts) mem =
     (let om = resetValue (opt, mem); rest = resetValues opts (snd om)
      in (fst om # fst rest, snd rest))"

definition reset_all :: "'v argument_parser \<Rightarrow> 'v argument_parser" where
  "reset_all ap =
     (let ro = resetValues (mOptions ap) (variables ap);
          rp = resetValues (mPositional ap) (snd ro)
      in ap\<lparr>mOptions := fst ro, mPositional := fst rp, variables := snd rp\<rparr>)"

text \<open>
  \<open>parse_args\<close>. \<open>generate_help\<close> prints the help text to a stream and changes nothing
  in the parser.
\<close>

definition install_help :: "'v argument_parser \<Rightarrow> exn option \<times> 'v argument_parser" where
  "install_help ap =
     (if mHelpOptionNames ap = {} then
        (case add_help_option ap of
           (Inl x, ap1) \<Rightarrow> (Some x, ap1)
         | (Inr cfg, ap1) \<Rightarrow> (None, ap1))
      else (None, ap))"

definition parse_args ::
  "string list \<Rightarrow> 'v argument_parser \<Rightarrow> ParseResult returned \<times> 'v argument_parser" where
  "parse_args args ap0 =
     (case install_help ap0 of
        (Some x, ap1) \<Rightarrow> (Throws x, ap1)
      | (None, ap1) \<Rightarrow>
          (case verifyDefinedOptions ap1 of
             Some x \<Rightarrow> (Throws x, ap1)
           | None \<Rightarrow>
               (let ap2 = reset_all ap1 in
                case find (\<lambda>arg. arg \<in> mHelpOptionNames ap2) args of
                  Some arg \<Rightarrow> (exit_parser arg HELP_REQUESTED ap2, ap2)
                | None \<Rightarrow>
                    (case parse args (new_Parser ap2) of
                       Thrown x p \<Rightarrow> (Throws x, mArgParser p)
                     | Normal p \<Rightarrow>
                         (Returns
                            (reportMissingGroups (mArgParser p)
                               (reportExclusiveViolations (mArgParser p)
                                  (reportMissingOptions (mArgParser p) (mResult p)))),
                          mArgParser p)))))"

subsection \<open>Notions used in the statements\<close>

text \<open>
  The tokens of a list handed to \<open>addFreeArgument\<close> one after the other, as long as no
  exception is in flight.
\<close>

fun addFreeArguments :: "string list \<Rightarrow> 'v Parser \<Rightarrow> 'v Parser outcome" where
  "addFreeArguments [] p = Normal p"
| "addFreeArguments (arg # args) p =
     (case addFreeArgument arg p of
        Normal p' \<Rightarrow> addFreeArguments args p'
      | Thrown x p' \<Rightarrow> Thrown x p')"

text \<open>
  What \<open>startOption\<close> does for an option that takes no argument: it tells the slot that
  an occurrence starts and assigns the flag value through \<open>Parser::setValue\<close>.
\<close>

definition assign_flag :: "nat \<Rightarrow> 'v Parser \<Rightarrow> 'v Parser outcome" where
  "assign_flag i p =
     Parser_setValue (InOptions i) (mFlagValue (mOptions (mArgParser p) ! i)) (on_started i p)"

text \<open>
  The options of the exclusive group named \<open>n\<close> that were assigned (\<open>wasAssigned\<close>), in
  the order of their declaration.
\<close>

definition exclusive_member :: "'v argument_parser \<Rightarrow> string \<Rightarrow> 'v Option \<Rightarrow> bool" where
  "exclusive_member ap n opt =
     (case getGroup ap opt of
        Some g \<Rightarrow> mIsExclusive g \<and> wasAssigned opt \<and> mName g = n
      | None \<Rightarrow> False)"

definition exclusive_members :: "'v argument_parser \<Rightarrow> string \<Rightarrow> 'v Option list" where
  "exclusive_members ap n = filter (exclusive_member ap n) (mOptions ap)"

text \<open>
  The declaration of an option: the option without the counters and the error flag of its
  slot, which are all that parsing changes in it.
\<close>

definition declared :: "'v Option \<Rightarrow> 'v Option" where
  "declared opt =
     opt\<lparr>mpValue := (mpValue opt)\<lparr>mAssignCount := 0, mOptionAssignCount := 0, mHasErrors := False\<rparr>\<rparr>"

text \<open>
  The declarations of a parser: the parser without what parsing changes, which are the
  counters and error flags of the slots and the variables.
\<close>

definition declarations :: "'v argument_parser \<Rightarrow> 'v argument_parser" where
  "declarations ap =
     ap\<lparr>mOptions := map declared (mOptions ap), mPositional := map declared (mPositional ap),
        variables := (\<lambda>a. Vector [])\<rparr>"









subsection \<open>Example parameters\<close>

text \<open>
  A converter in the style of \<open>from_string<long>::convert\<close>, used in the examples: a
  non-empty string of decimal digits converts to its number, anything else throws
  \<open>std::invalid_argument\<close>. The variables of the examples hold the number 7 before
  the parser is used.
\<close>

definition isdigit :: "char \<Rightarrow> bool" where
  "isdigit ch = (48 \<le> (of_char ch :: nat) \<and> (of_char ch :: nat) \<le> 57)"

definition decimal :: "string \<Rightarrow> int" where
  "decimal s = foldl (\<lambda>n ch. 10 * n + (int (of_char ch) - 48)) 0 s"

definition conv_long :: "string \<Rightarrow> exn + int" where
  "conv_long s =
     (if s \<noteq> [] \<and> list_all isdigit s then Inr (decimal s) else Inl (invalid_argument ''stol''))"

definition vars7 :: "int memory" where
  "vars7 a = Scalar 7"

definition vecs7 :: "int memory" where
  "vecs7 a = Vector [7]"

text \<open>A parser in which the exclusive group \<open>Mode\<close> has been opened and is active.\<close>

definition reg_excl :: "int argument_parser" where
  "reg_excl = state_of (add_exclusive_group ''Mode'' (new_argument_parser vars7))"

text \<open>
  The \<open>OptionConfig\<close> that a call of \<open>add_argument\<close> has returned (the examples only
  use it after calls that return), with the parser.
\<close>

definition returned_config ::
  "(exn + OptionConfig) \<times> 'v argument_parser \<Rightarrow> OptionConfig \<times> 'v argument_parser" where
  "returned_config r = (projr (fst r), snd r)"

text \<open>
  A parser with the return exit policy in which the option \<open>-x\<close> is declared in the
  exclusive group \<open>Mode\<close> and then marked as required.
\<close>

definition reg_required_exclusive :: "int argument_parser" where
  "reg_required_exclusive =
     snd (OptionConfig_required True
       (returned_config
          (add_argument (ConvertedValue 0 conv_long 0) ''-x'' []
             (state_of (add_exclusive_group ''Mode''
                (on_exit_return (new_argument_parser vars7)))))))"

text \<open>A parser with the return exit policy and one flag \<open>-v\<close>.\<close>

definition reg_flag :: "int argument_parser" where
  "reg_flag =
     snd (add_argument (ConvertedValue 0 conv_long 0) ''-v'' []
            (on_exit_return (new_argument_parser vars7)))"

text \<open>A parser with the return exit policy and one flag \<open>--verbose\<close>, \<open>-v\<close>.\<close>

definition reg_verbose :: "int argument_parser" where
  "reg_verbose =
     snd (add_argument (ConvertedValue 0 conv_long 0) ''--verbose'' ''-v''
            (on_exit_return (new_argument_parser vars7)))"

text \<open>
  Parsers with the return exit policy and the options \<open>-a\<close>, \<open>-b\<close>, \<open>-d\<close>, bound to
  the variables 0, 1 and 2: all three are flags, or \<open>-d\<close> is given \<open>nargs(1)\<close>.
\<close>

definition reg_abd :: "int argument_parser" where
  "reg_abd =
     snd (add_argument (ConvertedValue 2 conv_long 0) ''-d'' []
       (snd (add_argument (ConvertedValue 1 conv_long 0) ''-b'' []
          (snd (add_argument (ConvertedValue 0 conv_long 0) ''-a'' []
             (on_exit_return (new_argument_parser vars7)))))))"

definition reg_abd_value :: "int argument_parser" where
  "reg_abd_value =
     snd (nargs 1 (returned_config
       (add_argument (ConvertedValue 2 conv_long 0) ''-d'' []
          (snd (add_argument (ConvertedValue 1 conv_long 0) ''-b'' []
             (snd (add_argument (ConvertedValue 0 conv_long 0) ''-a'' []
                (on_exit_return (new_argument_parser vars7)))))))))"

text \<open>
  A parser with \<open>--value\<close> (\<open>nargs(1)\<close>, variable 0) and the flag \<open>--skipped\<close>
  (variable 1), and a parser with \<open>-x\<close> (\<open>maxargs(1)\<close>, variable 0).
\<close>

definition reg_value :: "int argument_parser" where
  "reg_value =
     snd (add_argument (ConvertedValue 1 conv_long 0) ''--skipped'' []
       (snd (nargs 1 (returned_config
          (add_argument (ConvertedValue 0 conv_long 0) ''--value'' []
             (on_exit_return (new_argument_parser vars7)))))))"

definition reg_optional :: "int argument_parser" where
  "reg_optional =
     snd (maxargs 1 (returned_config
       (add_argument (ConvertedValue 0 conv_long 0) ''-x'' []
          (on_exit_return (new_argument_parser vars7)))))"

text \<open>
  A parser in which \<open>-a\<close> and \<open>-b\<close> are declared in the exclusive group \<open>Mode\<close> and
  \<open>-c\<close> after the group has ended.
\<close>

definition reg_mode :: "int argument_parser" where
  "reg_mode =
     snd (add_argument (ConvertedValue 2 conv_long 0) ''-c'' []
       (end_group
          (snd (add_argument (ConvertedValue 1 conv_long 0) ''-b'' []
             (snd (add_argument (ConvertedValue 0 conv_long 0) ''-a'' []
                (state_of (add_exclusive_group ''Mode''
                   (on_exit_return (new_argument_parser vars7))))))))))"



text \<open>
  The states of \<open>Parser\<close> after the token \<open>-x\<close> for \<open>reg_optional\<close> and after the
  token \<open>-d\<close> for \<open>reg_abd_value\<close>: the option is active.
\<close>

definition active_x :: "int Parser" where
  "active_x = state_of (parse_arg ''-x'' (new_Parser reg_optional))"

definition active_d :: "int Parser" where
  "active_d = state_of (parse_arg ''-d'' (new_Parser reg_abd_value))"

section \<open>Properties\<close>

subsection \<open>Value slots\<close>

lemma conv_long_bad [simp]: "conv_long ''x'' = Inl (invalid_argument ''stol'')"
  by (simp add: conv_long_def isdigit_def)

lemma conv_long_5 [simp]: "conv_long ''5'' = Inr 5"
  by (simp add: conv_long_def isdigit_def decimal_def)

lemma conv_long_1 [simp]: "conv_long ''1'' = Inr 1"
  by (simp add: conv_long_def isdigit_def decimal_def)

lemma reg_flag_eval:
  "reg_flag =
     \<lparr>exitMode = EXIT_RETURN,
      mOptions = [(new_Option (ConvertedValue 0 conv_long 0) False)\<lparr>mShortName := ''-v''\<rparr>],
      mPositional = [], mHelpOptionNames = {}, mGroups = Map.empty, mpActiveGroup = None,
      variables = vars7\<rparr>"
  by (simp add: reg_flag_def add_argument_def tryAddArgument_def isspace_def isPositional_def
        isOption_def has_dash_def trySetNames_def getName_def setShortName_def setLongName_def
        new_argument_parser_def on_exit_return_def)

lemma assign_opt_variables: "variables (assign_opt r opt ap) = variables ap"
  by (cases r) simp_all

lemma conversion_error_recorded:
  assumes thrown: "Value_setValue raw (mpValue opt, variables (mArgParser p)) =
                     Thrown x (v', variables (mArgParser p))"
    and x: "x = invalid_argument m \<or> x = out_of_range m"
    and opt: "opt = deref r (mArgParser p)"
    and choice: "mChoices opt = [] \<or> tok \<in> set (mChoices opt)"
    and action: "case mpAssignAction opt of None \<Rightarrow> tok = raw | Some act \<Rightarrow> act tok = Some raw"
  shows "Parser_setValue r tok p =
           Normal (addError (getName opt) CONVERSION_ERROR
                     (p\<lparr>mArgParser := assign_opt r (opt\<lparr>mpValue := v'\<rparr>) (mArgParser p)\<rparr>))"
proof -
  have slot: "slot_setValue raw (opt, variables (mArgParser p)) =
      Thrown x (opt\<lparr>mpValue := v'\<rparr>, variables (mArgParser p))"
    using thrown by (simp add: slot_setValue_def)
  have "Option_setValue tok (opt, variables (mArgParser p)) =
      Thrown x (opt\<lparr>mpValue := v'\<rparr>, variables (mArgParser p))"
    using choice action slot by (auto simp add: Option_setValue_def split: option.splits)
  moreover have "caught x = Some CONVERSION_ERROR"
    using x by auto
  moreover have "(assign_opt r (opt\<lparr>mpValue := v'\<rparr>) (mArgParser p))
        \<lparr>variables := variables (mArgParser p)\<rparr> =
      assign_opt r (opt\<lparr>mpValue := v'\<rparr>) (mArgParser p)"
    by (cases r) simp_all
  ultimately show ?thesis
    using opt by (simp add: Parser_setValue_def write_back_def getName_def del: deref.simps)
qed

text \<open>
  C1, as stated, fails: \<open>Value::setValue\<close> increments \<open>mAssignCount\<close> and
  \<open>mOptionAssignCount\<close> before it calls \<open>doSetValue\<close>, so a slot with both counters 0
  has both counters 1 after the conversion of \<open>"x"\<close> has thrown, and \<open>mHasErrors\<close> is
  still false.
\<close>

theorem setValue_failure_counts:
  "Value_setValue ''x'' (new_Value (ConvertedValue 0 conv_long 0), vars7) =
     Thrown (invalid_argument ''stol'')
       (\<lparr>mAssignCount = 1, mOptionAssignCount = 1, mHasErrors = False,
         kind = ConvertedValue 0 conv_long 0\<rparr>, vars7)"
  by (simp add: Value_setValue_def new_Value_def)

text \<open>
  C1, amended: for every slot that converts into a variable (\<open>ConvertedValue\<close> of a
  scalar or of a vector) and every raw string,
  \<^item> if the converter throws \<open>x\<close>, \<open>setValue\<close> throws \<open>x\<close>, both counters have been
    incremented, and the error flag and every variable are as they were. When \<open>x\<close> is a
    \<open>std::invalid_argument\<close> or a \<open>std::out_of_range\<close> and the slot is that of an option
    to which \<open>Parser::setValue\<close> assigns the string (the token passes the choice check,
    and the assign action, if there is one, hands on the raw string), \<open>Parser::setValue\<close>
    returns: it has appended exactly one \<open>CONVERSION_ERROR\<close> entry with the name of the
    option to the errors, and the option holds the slot with the incremented counters;
  \<^item> if the converter returns \<open>c\<close>, \<open>setValue\<close> returns, both counters have been
    incremented, the error flag is as it was, a scalar variable holds \<open>c\<close>, and a vector
    variable has \<open>c\<close> appended to its former elements; no other variable has changed.
\<close>

theorem setValue_converted:
  assumes "kind v = ConvertedValue a conv e \<or> kind v = ConvertedVector a conv"
  shows "(\<forall>x. conv raw = Inl x \<longrightarrow>
            (\<exists>v'. Value_setValue raw (v, mem) = Thrown x (v', mem) \<and>
                  mAssignCount v' = mAssignCount v + 1 \<and>
                  mOptionAssignCount v' = mOptionAssignCount v + 1 \<and>
                  mHasErrors v' = mHasErrors v \<and>
                  kind v' = kind v \<and>
                  (\<forall>m r p tok.
                     (x = invalid_argument m \<or> x = out_of_range m) \<and>
                     mpValue (deref r (mArgParser p)) = v \<and>
                     variables (mArgParser p) = mem \<and>
                     (mChoices (deref r (mArgParser p)) = [] \<or>
                      tok \<in> set (mChoices (deref r (mArgParser p)))) \<and>
                     (case mpAssignAction (deref r (mArgParser p)) of
                        None \<Rightarrow> tok = raw
                      | Some act \<Rightarrow> act tok = Some raw) \<longrightarrow>
                     (\<exists>q. Parser_setValue r tok p = Normal q \<and>
                          errors (mResult q) =
                            errors (mResult p) @
                              [\<lparr>option = getName (deref r (mArgParser p)),
                                errorCode = CONVERSION_ERROR\<rparr>] \<and>
                          ignoredArguments (mResult q) = ignoredArguments (mResult p) \<and>
                          mArgParser q =
                            assign_opt r ((deref r (mArgParser p))\<lparr>mpValue := v'\<rparr>)
                              (mArgParser p) \<and>
                          variables (mArgParser q) = mem)))) \<and>
         (\<forall>c. conv raw = Inr c \<longrightarrow>
            (\<exists>v'. Value_setValue raw (v, mem) =
                    Normal (v', mem(a := (if kind v = ConvertedVector a conv
                                          then Vector (elems (mem a) @ [c]) else Scalar c))) \<and>
                  mAssignCount v' = mAssignCount v + 1 \<and>
                  mOptionAssignCount v' = mOptionAssignCount v + 1 \<and>
                  mHasErrors v' = mHasErrors v \<and>
                  kind v' = kind v))"
proof (intro conjI allI impI)
  fix x
  assume failed: "conv raw = Inl x"
  let ?v' = "v\<lparr>mAssignCount := mAssignCount v + 1, mOptionAssignCount := mOptionAssignCount v + 1\<rparr>"
  have thrown: "Value_setValue raw (v, mem) = Thrown x (?v', mem)"
    using assms failed by (auto simp add: Value_setValue_def)
  have recorded: "\<exists>q. Parser_setValue r tok p = Normal q \<and>
        errors (mResult q) =
          errors (mResult p) @
            [\<lparr>option = getName (deref r (mArgParser p)), errorCode = CONVERSION_ERROR\<rparr>] \<and>
        ignoredArguments (mResult q) = ignoredArguments (mResult p) \<and>
        mArgParser q = assign_opt r ((deref r (mArgParser p))\<lparr>mpValue := ?v'\<rparr>) (mArgParser p) \<and>
        variables (mArgParser q) = mem"
    if given: "(x = invalid_argument m \<or> x = out_of_range m) \<and>
        mpValue (deref r (mArgParser p)) = v \<and>
        variables (mArgParser p) = mem \<and>
        (mChoices (deref r (mArgParser p)) = [] \<or>
         tok \<in> set (mChoices (deref r (mArgParser p)))) \<and>
        (case mpAssignAction (deref r (mArgParser p)) of
           None \<Rightarrow> tok = raw
         | Some act \<Rightarrow> act tok = Some raw)"
    for m r p tok
  proof -
    have "Value_setValue raw (mpValue (deref r (mArgParser p)), variables (mArgParser p)) =
        Thrown x (?v', variables (mArgParser p))"
      using thrown given by simp
    then have "Parser_setValue r tok p =
        Normal (addError (getName (deref r (mArgParser p))) CONVERSION_ERROR
                  (p\<lparr>mArgParser :=
                       assign_opt r ((deref r (mArgParser p))\<lparr>mpValue := ?v'\<rparr>) (mArgParser p)\<rparr>))"
      using given by (intro conversion_error_recorded [where m = m]) blast+
    then show ?thesis
      using given by (simp add: addError_def assign_opt_variables)
  qed
  have fields: "mAssignCount ?v' = mAssignCount v + 1 \<and>
      mOptionAssignCount ?v' = mOptionAssignCount v + 1 \<and>
      mHasErrors ?v' = mHasErrors v \<and> kind ?v' = kind v"
    by simp
  show "\<exists>v'. Value_setValue raw (v, mem) = Thrown x (v', mem) \<and>
          mAssignCount v' = mAssignCount v + 1 \<and>
          mOptionAssignCount v' = mOptionAssignCount v + 1 \<and>
          mHasErrors v' = mHasErrors v \<and>
          kind v' = kind v \<and>
          (\<forall>m r p tok.
             (x = invalid_argument m \<or> x = out_of_range m) \<and>
             mpValue (deref r (mArgParser p)) = v \<and>
             variables (mArgParser p) = mem \<and>
             (mChoices (deref r (mArgParser p)) = [] \<or>
              tok \<in> set (mChoices (deref r (mArgParser p)))) \<and>
             (case mpAssignAction (deref r (mArgParser p)) of
                None \<Rightarrow> tok = raw
              | Some act \<Rightarrow> act tok = Some raw) \<longrightarrow>
             (\<exists>q. Parser_setValue r tok p = Normal q \<and>
                  errors (mResult q) =
                    errors (mResult p) @
                      [\<lparr>option = getName (deref r (mArgParser p)),
                        errorCode = CONVERSION_ERROR\<rparr>] \<and>
                  ignoredArguments (mResult q) = ignoredArguments (mResult p) \<and>
                  mArgParser q =
                    assign_opt r ((deref r (mArgParser p))\<lparr>mpValue := v'\<rparr>)
                      (mArgParser p) \<and>
                  variables (mArgParser q) = mem))"
    using thrown fields recorded by blast
next
  fix c
  assume "conv raw = Inr c"
  then show "\<exists>v'. Value_setValue raw (v, mem) =
                Normal (v', mem(a := (if kind v = ConvertedVector a conv
                                      then Vector (elems (mem a) @ [c]) else Scalar c))) \<and>
              mAssignCount v' = mAssignCount v + 1 \<and>
              mOptionAssignCount v' = mOptionAssignCount v + 1 \<and>
              mHasErrors v' = mHasErrors v \<and>
              kind v' = kind v"
    using assms by (auto simp add: Value_setValue_def)
qed

theorem setValue_converted_witness:
  "(\<exists>v'. Value_setValue ''x'' (new_Value (ConvertedValue 0 conv_long 0), vars7) =
           Thrown (invalid_argument ''stol'') (v', vars7) \<and>
         mAssignCount v' = 1 \<and> mOptionAssignCount v' = 1 \<and> \<not> mHasErrors v') \<and>
   (\<exists>q. Parser_setValue (InOptions 0) ''x'' (new_Parser reg_flag) = Normal q \<and>
        errors (mResult q) = [\<lparr>option = ''-v'', errorCode = CONVERSION_ERROR\<rparr>] \<and>
        variables (mArgParser q) = vars7) \<and>
   (\<exists>v'. Value_setValue ''5'' (new_Value (ConvertedVector 0 conv_long), vecs7) =
           Normal (v', vecs7(0 := Vector [7, 5])) \<and>
         mAssignCount v' = 1 \<and> mOptionAssignCount v' = 1)"
proof -
  let ?v = "new_Value (ConvertedValue 0 conv_long 0) :: int Value"
  let ?p = "new_Parser reg_flag"
  have scalar: "kind ?v = ConvertedValue 0 conv_long 0 \<or> kind ?v = ConvertedVector 0 conv_long"
    by (simp add: new_Value_def)
  obtain v' where thrown: "Value_setValue ''x'' (?v, vars7) =
        Thrown (invalid_argument ''stol'') (v', vars7)"
    and counts: "mAssignCount v' = mAssignCount ?v + 1"
      "mOptionAssignCount v' = mOptionAssignCount ?v + 1" "mHasErrors v' = mHasErrors ?v"
    and recorded: "\<And>m r p tok.
        (invalid_argument ''stol'' = invalid_argument m \<or>
         invalid_argument ''stol'' = out_of_range m) \<and>
        mpValue (deref r (mArgParser p)) = ?v \<and>
        variables (mArgParser p) = vars7 \<and>
        (mChoices (deref r (mArgParser p)) = [] \<or> tok \<in> set (mChoices (deref r (mArgParser p)))) \<and>
        (case mpAssignAction (deref r (mArgParser p)) of
           None \<Rightarrow> tok = ''x''
         | Some act \<Rightarrow> act tok = Some ''x'') \<Longrightarrow>
        \<exists>q. Parser_setValue r tok p = Normal q \<and>
            errors (mResult q) =
              errors (mResult p) @
                [\<lparr>option = getName (deref r (mArgParser p)), errorCode = CONVERSION_ERROR\<rparr>] \<and>
            ignoredArguments (mResult q) = ignoredArguments (mResult p) \<and>
            mArgParser q =
              assign_opt r ((deref r (mArgParser p))\<lparr>mpValue := v'\<rparr>) (mArgParser p) \<and>
            variables (mArgParser q) = vars7"
    using setValue_converted [OF scalar, of "''x''" vars7] conv_long_bad by blast
  have option: "deref (InOptions 0) (mArgParser ?p) =
      (new_Option (ConvertedValue 0 conv_long 0) False)\<lparr>mShortName := ''-v''\<rparr>"
    and vars: "variables (mArgParser ?p) = vars7"
    and none: "errors (mResult ?p) = []"
    by (simp_all add: new_Parser_def reg_flag_eval)
  have "\<exists>q. Parser_setValue (InOptions 0) ''x'' ?p = Normal q \<and>
        errors (mResult q) =
          errors (mResult ?p) @
            [\<lparr>option = getName (deref (InOptions 0) (mArgParser ?p)),
              errorCode = CONVERSION_ERROR\<rparr>] \<and>
        ignoredArguments (mResult q) = ignoredArguments (mResult ?p) \<and>
        mArgParser q =
          assign_opt (InOptions 0) ((deref (InOptions 0) (mArgParser ?p))\<lparr>mpValue := v'\<rparr>)
            (mArgParser ?p) \<and>
        variables (mArgParser q) = vars7"
    by (rule recorded [of "''stol''"]) (simp add: option vars new_Option_def del: deref.simps)
  then have parser: "\<exists>q. Parser_setValue (InOptions 0) ''x'' ?p = Normal q \<and>
        errors (mResult q) = [\<lparr>option = ''-v'', errorCode = CONVERSION_ERROR\<rparr>] \<and>
        variables (mArgParser q) = vars7"
    unfolding option none by (auto simp add: getName_def new_Option_def)
  have vector: "kind (new_Value (ConvertedVector 0 conv_long) :: int Value) =
        ConvertedValue 0 conv_long 0 \<or>
      kind (new_Value (ConvertedVector 0 conv_long) :: int Value) = ConvertedVector 0 conv_long"
    by (simp add: new_Value_def)
  have appended: "\<exists>v'. Value_setValue ''5'' (new_Value (ConvertedVector 0 conv_long), vecs7) =
           Normal (v', vecs7(0 := Vector [7, 5])) \<and>
         mAssignCount v' = 1 \<and> mOptionAssignCount v' = 1"
    using setValue_converted [OF vector, of "''5''" vecs7] conv_long_5
    by (auto simp add: new_Value_def vecs7_def)
  show ?thesis
    using thrown counts parser appended by (auto simp add: new_Value_def)
qed

subsection \<open>Declaring a positional argument\<close>

lemma tolower_Mode:
  "tolower (CHR ''M'') = CHR ''m''" "tolower (CHR ''o'') = CHR ''o''"
  "tolower (CHR ''d'') = CHR ''d''" "tolower (CHR ''e'') = CHR ''e''"
  by code_simp+

lemma reg_excl_active:
  "mpActiveGroup reg_excl = Some ''mode'' \<and>
   mGroups reg_excl ''mode'' = Some (new_OptionGroup ''mode'' True) \<and>
   mPositional reg_excl = []"
  by (simp add: reg_excl_def add_exclusive_group_def findGroup_def new_argument_parser_def
        addGroup_def tolower_Mode)

text \<open>
  C9: \<open>add_argument\<close> with names that are all free of a leading dash (and of white
  space) appends a positional argument and throws nothing. Its arity is \<open>min = max = 1\<close>,
  unless the destination is a vector: then \<open>min = 0\<close> and \<open>max = -1\<close>, which
  \<open>willAcceptArgument\<close> reads as unbounded. It belongs to the active group if that group
  is not exclusive, and to no group if the active group is exclusive or no group is active.
\<close>

theorem positional_defaults:
  assumes "filter (\<lambda>n. n \<noteq> []) [name, altName] \<noteq> []"
    and "\<not> list_ex (\<lambda>n. list_ex isspace n) (filter (\<lambda>n. n \<noteq> []) [name, altName])"
    and "isPositional (filter (\<lambda>n. n \<noteq> []) [name, altName])"
  shows "\<exists>opt. add_argument val name altName ap =
           (Inr \<lparr>mIndex = InPositional (length (mPositional ap)), mCountWasSet = False\<rparr>,
            ap\<lparr>mPositional := mPositional ap @ [opt]\<rparr>) \<and>
          mMinArgs opt = (case val of ConvertedVector a conv \<Rightarrow> 0 | _ \<Rightarrow> 1) \<and>
          mMaxArgs opt = (case val of ConvertedVector a conv \<Rightarrow> - 1 | _ \<Rightarrow> 1) \<and>
          (\<forall>n. mMaxArgs opt = - 1 \<longrightarrow>
             willAcceptArgument (opt\<lparr>mpValue := (mpValue opt)\<lparr>mOptionAssignCount := n\<rparr>\<rparr>)) \<and>
          mpGroup opt =
            (case mpActiveGroup ap of
               None \<Rightarrow> None
             | Some k \<Rightarrow>
                 (case mGroups ap k of
                    None \<Rightarrow> None
                  | Some g \<Rightarrow> if mIsExclusive g then None else Some k))"
  using assms
  by (cases val)
     (auto simp add: add_argument_def tryAddArgument_def Let_def setLongName_def setMinArgs_def
        setNArgs_def setGroup_def hasVectorValue_def new_Option_def willAcceptArgument_def
        split: option.splits)

theorem positional_defaults_witness:
  "(\<exists>opt. add_argument (ConvertedValue 0 conv_long 0) ''file'' [] reg_excl =
           (Inr \<lparr>mIndex = InPositional 0, mCountWasSet = False\<rparr>,
            reg_excl\<lparr>mPositional := [opt]\<rparr>) \<and>
          mMinArgs opt = 1 \<and> mMaxArgs opt = 1 \<and> mpGroup opt = None) \<and>
   (\<exists>opt. add_argument (ConvertedVector 0 conv_long) ''files'' [] reg_excl =
           (Inr \<lparr>mIndex = InPositional 0, mCountWasSet = False\<rparr>,
            reg_excl\<lparr>mPositional := [opt]\<rparr>) \<and>
          mMinArgs opt = 0 \<and> mMaxArgs opt = - 1 \<and> mpGroup opt = None)"
  using positional_defaults [of "''file''" "[]" "ConvertedValue 0 conv_long 0" reg_excl]
        positional_defaults [of "''files''" "[]" "ConvertedVector 0 conv_long" reg_excl]
  by (auto simp add: reg_excl_active isPositional_def has_dash_def isspace_def new_OptionGroup_def)

subsection \<open>Help interception\<close>

lemma trySetNames_help:
  "trySetNames [''--help'', ''-h''] opt = Normal (setShortName ''-h'' (setLongName ''--help'' opt))"
  by (simp add: trySetNames_def has_dash_def getName_def setShortName_def setLongName_def)

lemma tryAddArgument_help:
  "tryAddArgument opt [''--help'', ''-h''] ap =
     (Inr \<lparr>mIndex = InOptions (length (mOptions ap)), mCountWasSet = False\<rparr>,
      ap\<lparr>mOptions := mOptions ap @
            [case mpActiveGroup ap of
               None \<Rightarrow> setShortName ''-h'' (setLongName ''--help'' opt)
             | Some k \<Rightarrow> setGroup (mpActiveGroup ap)
                          (setShortName ''-h'' (setLongName ''--help'' opt))]\<rparr>)"
  by (simp add: tryAddArgument_def trySetNames_help isspace_def isPositional_def isOption_def
        has_dash_def)

lemma add_help_option_returns:
  "(\<exists>cfg. fst (add_help_option ap) = Inr cfg) \<and>
   exitMode (snd (add_help_option ap)) = exitMode ap \<and>
   mHelpOptionNames (snd (add_help_option ap)) =
     insert ''-h'' (insert ''--help'' (mHelpOptionNames ap))"
  by (simp add: add_help_option_def add_help_option2_def tryAddArgument_help OptionConfig_help_def
        Let_def)

lemma reset_all_static:
  "exitMode (reset_all ap) = exitMode ap \<and> mHelpOptionNames (reset_all ap) = mHelpOptionNames ap"
  by (simp add: reset_all_def Let_def)

lemma install_help_returns:
  "fst (install_help ap) = None \<and> exitMode (snd (install_help ap)) = exitMode ap \<and>
   mHelpOptionNames (snd (install_help ap)) \<noteq> {}"
proof (cases "mHelpOptionNames ap = {}")
  case True
  obtain r ap1 where a: "add_help_option ap = (r, ap1)"
    by (cases "add_help_option ap") blast
  have "\<exists>cfg. r = Inr cfg" and "exitMode ap1 = exitMode ap" and "mHelpOptionNames ap1 \<noteq> {}"
    using add_help_option_returns [of ap] unfolding a by simp_all
  then show ?thesis
    using True a by (auto simp add: install_help_def)
next
  case False
  then show ?thesis by (simp add: install_help_def)
qed

text \<open>
  C7, amended. \<open>parse_args\<close> first installs the default help option if none was declared,
  then runs the declaration check \<open>verifyDefinedOptions\<close>, then resets the slots, and only
  then looks for a help name among the arguments. So for every parser that passes the
  declaration check and every argument list that contains a help name, \<open>parse_args\<close> leaves
  through \<open>exit_parser\<close> with the first help name found: the parser is the reset one (no
  token was routed, no validation ran), and under the return exit policy the result holds
  exactly the entry \<open>HELP_REQUESTED\<close>.
\<close>

theorem help_short_circuit:
  assumes "verifyDefinedOptions (snd (install_help ap)) = None"
    and "tok \<in> set args" and "tok \<in> mHelpOptionNames (snd (install_help ap))"
  shows "\<exists>t. find (\<lambda>arg. arg \<in> mHelpOptionNames (snd (install_help ap))) args = Some t \<and>
           parse_args args ap =
             (exit_parser t HELP_REQUESTED ap, reset_all (snd (install_help ap))) \<and>
           (exitMode ap = EXIT_RETURN \<longrightarrow>
              fst (parse_args args ap) =
                Returns \<lparr>ignoredArguments = [],
                         errors = [\<lparr>option = t, errorCode = HELP_REQUESTED\<rparr>]\<rparr>)"
proof -
  obtain ap1 where ih: "install_help ap = (None, ap1)"
    using install_help_returns [of ap] by (cases "install_help ap") simp
  have mode: "exitMode ap1 = exitMode ap"
    using install_help_returns [of ap] ih by simp
  obtain t where t: "find (\<lambda>arg. arg \<in> mHelpOptionNames ap1) args = Some t"
    using assms(2,3) ih
    by (cases "find (\<lambda>arg. arg \<in> mHelpOptionNames ap1) args") (auto simp add: find_None_iff)
  have ex: "exit_parser t HELP_REQUESTED (reset_all ap1) = exit_parser t HELP_REQUESTED ap"
    using mode by (simp add: exit_parser_def reset_all_static)
  have "parse_args args ap = (exit_parser t HELP_REQUESTED ap, reset_all ap1)"
    using t assms(1) ex ih by (simp add: parse_args_def Let_def reset_all_static)
  then show ?thesis using t ih by (auto simp add: exit_parser_def)
qed


lemma reg_flag_help:
  "mHelpOptionNames (snd (install_help reg_flag)) = {''-h'', ''--help''} \<and>
   verifyDefinedOptions (snd (install_help reg_flag)) = None"
  by (simp add: install_help_def add_help_option_def add_help_option2_def tryAddArgument_help
        OptionConfig_help_def Let_def reg_flag_eval verifyDefinedOptions_def isRequired_def
        new_Option_def setShortName_def setLongName_def setHelp_def)

theorem help_short_circuit_witness:
  "fst (parse_args [''-v'', ''--help''] reg_flag) =
     Returns \<lparr>ignoredArguments = [],
              errors = [\<lparr>option = ''--help'', errorCode = HELP_REQUESTED\<rparr>]\<rparr> \<and>
   snd (parse_args [''-v'', ''--help''] reg_flag) = reset_all (snd (install_help reg_flag))"
proof -
  have mode: "exitMode reg_flag = EXIT_RETURN"
    by (simp add: reg_flag_eval)
  have names: "mHelpOptionNames (snd (install_help reg_flag)) = {''-h'', ''--help''}"
    and verified: "verifyDefinedOptions (snd (install_help reg_flag)) = None"
    using reg_flag_help by blast+
  have present: "''--help'' \<in> set [''-v'', ''--help'']"
    by simp
  have recognized: "''--help'' \<in> mHelpOptionNames (snd (install_help reg_flag))"
    unfolding names by simp
  obtain t where t: "find (\<lambda>arg. arg \<in> mHelpOptionNames (snd (install_help reg_flag)))
                       [''-v'', ''--help''] = Some t"
    and result: "parse_args [''-v'', ''--help''] reg_flag =
                   (exit_parser t HELP_REQUESTED reg_flag, reset_all (snd (install_help reg_flag)))"
    and returned: "exitMode reg_flag = EXIT_RETURN \<longrightarrow>
                   fst (parse_args [''-v'', ''--help''] reg_flag) =
                     Returns \<lparr>ignoredArguments = [],
                              errors = [\<lparr>option = t, errorCode = HELP_REQUESTED\<rparr>]\<rparr>"
    using help_short_circuit [OF verified present recognized] by blast
  have "t = ''--help''"
    using t unfolding names by simp
  then show ?thesis
    using result returned mode by simp
qed

lemma reg_required_exclusive_eval:
  "reg_required_exclusive =
     \<lparr>exitMode = EXIT_RETURN,
      mOptions = [(new_Option (ConvertedValue 0 conv_long 0) False)
                    \<lparr>mShortName := ''-x'', mpGroup := Some ''mode'', mIsRequired_opt := True\<rparr>],
      mPositional = [], mHelpOptionNames = {},
      mGroups = [''mode'' \<mapsto> new_OptionGroup ''mode'' True],
      mpActiveGroup = Some ''mode'', variables = vars7\<rparr>"
  by (simp add: reg_required_exclusive_def add_argument_def tryAddArgument_def isspace_def
        isPositional_def isOption_def has_dash_def trySetNames_def getName_def setShortName_def
        setLongName_def setGroup_def setRequired_def new_argument_parser_def on_exit_return_def
        returned_config_def OptionConfig_required_def add_exclusive_group_def findGroup_def
        addGroup_def tolower_Mode)

text \<open>
  C7, as stated, fails for a parser in which a required option is in an exclusive group:
  with the return exit policy and the argument \<open>--help\<close>, \<open>parse_args\<close> throws
  \<open>RequiredExclusiveOption\<close> instead of returning \<open>HELP_REQUESTED\<close>.
\<close>

theorem help_after_declaration_check:
  "exitMode reg_required_exclusive = EXIT_RETURN \<and>
   fst (parse_args [''--help''] reg_required_exclusive) =
     Throws (RequiredExclusiveOption ''-x'' ''mode'')"
  by (simp add: parse_args_def install_help_def add_help_option_def add_help_option2_def
        tryAddArgument_help OptionConfig_help_def Let_def reg_required_exclusive_eval
        verifyDefinedOptions_def isRequired_def getGroup_def getName_def
        new_Option_def new_OptionGroup_def setShortName_def setLongName_def setHelp_def setGroup_def)

subsection \<open>What parsing leaves unchanged\<close>

lemma declared_setValue:
  "declared (fst (state_of (Option_setValue val (opt, mem)))) = declared opt"
  by (simp add: Option_setValue_def slot_setValue_def Value_setValue_def markBadArgument_def
        declared_def Let_def split: option.splits sum.splits outcome.splits)

lemma declared_onOptionStarted: "declared (Option_onOptionStarted opt) = declared opt"
  by (simp add: Option_onOptionStarted_def Value_onOptionStarted_def declared_def)

lemma map_declared_update:
  assumes "declared y = declared (xs ! i)"
  shows "map declared (xs[i := y]) = map declared xs"
proof (cases "i < length xs")
  case True
  then show ?thesis
    using assms by (simp add: map_update list_update_same_conv)
next
  case False
  then show ?thesis by (simp add: list_update_beyond)
qed

lemma declarations_assign_opt:
  "declared opt = declared (deref r ap) \<Longrightarrow>
     declarations ((assign_opt r opt ap)\<lparr>variables := mem\<rparr>) = declarations ap"
  by (cases r) (simp_all add: declarations_def map_declared_update)

lemma declarations_assign_opt2:
  "declared opt = declared (deref r ap) \<Longrightarrow> declarations (assign_opt r opt ap) = declarations ap"
  by (cases r) (simp_all add: declarations_def map_declared_update)

lemma declarations_write_back:
  "declared (fst om) = declared (deref r (mArgParser p)) \<Longrightarrow>
     declarations (mArgParser (write_back r om p)) = declarations (mArgParser p)"
  by (simp add: write_back_def declarations_assign_opt)

lemma mArgParser_addError [simp]: "mArgParser (addError n c p) = mArgParser p"
  by (simp add: addError_def)

lemma mArgParser_push_ignored [simp]: "mArgParser (push_ignored a p) = mArgParser p"
  by (simp add: push_ignored_def)

lemma declarations_Parser_setValue:
  "declarations (mArgParser (state_of (Parser_setValue r val p))) = declarations (mArgParser p)"
proof -
  have "declared (fst (state_of (Option_setValue val (deref r (mArgParser p), variables (mArgParser p)))))
          = declared (deref r (mArgParser p))"
    by (rule declared_setValue)
  then show ?thesis
    by (cases "Option_setValue val (deref r (mArgParser p), variables (mArgParser p))")
       (simp_all add: Parser_setValue_def declarations_write_back split: option.splits)
qed

lemma declarations_closeOption:
  "declarations (mArgParser (state_of (closeOption p))) = declarations (mArgParser p)"
proof (cases "mpActiveOption p")
  case None
  then show ?thesis by (simp add: closeOption_def)
next
  case (Some i)
  let ?opt = "deref (InOptions i) (mArgParser p)"
  have "declared (fst (state_of (Option_setValue (getFlagValue ?opt) (?opt, variables (mArgParser p)))))
          = declared ?opt"
    by (rule declared_setValue)
  then show ?thesis
    using Some
    by (cases "Option_setValue (getFlagValue ?opt) (?opt, variables (mArgParser p))")
       (simp_all add: closeOption_def Let_def declarations_write_back del: deref.simps)
qed

lemma declarations_on_started:
  "declarations (mArgParser (on_started i p)) = declarations (mArgParser p)"
  by (simp add: on_started_def declarations_assign_opt2 declared_onOptionStarted
        del: deref.simps assign_opt.simps)

lemma state_of_and_then:
  assumes "\<And>s. I (state_of (f s)) = I s"
  shows "I (state_of (and_then r f)) = I (state_of r)"
  using assms by (cases r) simp_all

lemma declarations_addFreeArgument_while:
  "declarations (mArgParser (state_of (addFreeArgument_while arg p))) = declarations (mArgParser p)"
proof (induction arg p rule: addFreeArgument_while.induct)
  case (1 arg p)
  show ?case
  proof (cases "mPosition p < length (mPositional (mArgParser p))")
    case True
    show ?thesis
    proof (cases "willAcceptArgument (deref (InPositional (mPosition p)) (mArgParser p))")
      case True
      with \<open>mPosition p < length (mPositional (mArgParser p))\<close> show ?thesis
        by (subst addFreeArgument_while.simps) (simp add: declarations_Parser_setValue)
    next
      case False
      with \<open>mPosition p < length (mPositional (mArgParser p))\<close> "1.IH" show ?thesis
        by (subst addFreeArgument_while.simps) simp
    qed
  next
    case False
    then show ?thesis
      by (subst addFreeArgument_while.simps) simp
  qed
qed

lemma declarations_addFreeArgument:
  "declarations (mArgParser (state_of (addFreeArgument arg p))) = declarations (mArgParser p)"
  using declarations_addFreeArgument_while [of arg "p\<lparr>mPosition := mPosition p + 1\<rparr>"]
  by (simp add: addFreeArgument_def declarations_Parser_setValue del: deref.simps)

lemma declarations_startOption:
  "declarations (mArgParser (state_of (startOption name0 p))) = declarations (mArgParser p)"
proof -
  let ?I = "\<lambda>q. declarations (mArgParser q)"
  define r1 where "r1 = (if haveActiveOption p then closeOption p else Normal p)"
  have first: "?I (state_of r1) = ?I p"
    by (simp add: r1_def declarations_closeOption)
  show ?thesis
  proof (cases r1)
    case (Thrown x q)
    then have "startOption name0 p = Thrown x q"
      by (simp add: startOption_def r1_def [symmetric])
    with first Thrown show ?thesis by simp
  next
    case (Normal q)
    show ?thesis
    proof (cases "findOption (name_part name0) q")
      case None
      with Normal have "startOption name0 p = Normal (addError (name_part name0) UNKNOWN_OPTION q)"
        by (simp add: startOption_def r1_def [symmetric] Let_def)
      with first Normal show ?thesis by simp
    next
      case (Some i)
      define r2 where "r2 =
        (if willAcceptArgument (deref (InOptions i) (mArgParser (on_started i q)))
         then Normal ((on_started i q)\<lparr>mpActiveOption := Some i\<rparr>)
         else Parser_setValue (InOptions i)
                (getFlagValue (deref (InOptions i) (mArgParser (on_started i q))))
                (on_started i q))"
      have second: "?I (state_of r2) = ?I q"
        by (simp add: r2_def declarations_Parser_setValue declarations_on_started
              del: deref.simps)
      have unfolded: "startOption name0 p =
        and_then r2
          (\<lambda>p2. if arg_part name0 \<noteq> [] then
                   (if willAcceptArgument (deref (InOptions i) (mArgParser p2))
                    then Parser_setValue (InOptions i) (arg_part name0) p2
                    else Normal (addError (name_part name0) FLAG_PARAMETER p2))
                 else Normal p2)"
        using Normal Some by (simp add: startOption_def r1_def [symmetric] r2_def Let_def)
      show ?thesis
      proof (cases r2)
        case (Thrown x p2)
        with unfolded second first Normal show ?thesis by simp
      next
        case inner: (Normal p2)
        with unfolded second first Normal show ?thesis
          by (simp add: declarations_Parser_setValue del: deref.simps)
      qed
    qed
  qed
qed

lemma declarations_startOption_each:
  "declarations (mArgParser (state_of (startOption_each cs p))) = declarations (mArgParser p)"
proof (induction cs arbitrary: p)
  case Nil
  then show ?case by simp
next
  case (Cons c cs)
  show ?case
    using declarations_startOption [of "[CHR ''-'', c]" p] Cons.IH
    by (cases "startOption [CHR ''-'', c] p") simp_all
qed

lemma declarations_parse_arg:
  "declarations (mArgParser (state_of (parse_arg arg p))) = declarations (mArgParser p)"
proof -
  let ?I = "\<lambda>q. declarations (mArgParser q)"
  have assigned: "?I (state_of (and_then (Parser_setValue (InOptions i) arg p)
           (\<lambda>p'. if \<not> willAcceptArgument (deref (InOptions i) (mArgParser p'))
                  then closeOption p' else Normal p'))) = ?I p" for i
    using declarations_Parser_setValue [of "InOptions i" arg p]
    by (cases "Parser_setValue (InOptions i) arg p")
       (simp_all add: declarations_closeOption del: deref.simps)
  show ?thesis
  proof (cases "mpActiveOption p")
    case None
    then show ?thesis
      by (simp add: parse_arg_def declarations_addFreeArgument declarations_startOption
            declarations_startOption_each)
  next
    case (Some i)
    then show ?thesis
      using assigned [of i]
      by (simp add: parse_arg_def declarations_addFreeArgument declarations_startOption
            declarations_startOption_each del: deref.simps)
  qed
qed

lemma declarations_parse_loop:
  "declarations (mArgParser (state_of (parse_loop args p))) = declarations (mArgParser p)"
proof (induction args arbitrary: p)
  case Nil
  then show ?case by simp
next
  case (Cons arg args)
  show ?case
    using declarations_parse_arg [of arg p] Cons.IH
    by (cases "parse_arg arg p") simp_all
qed

lemma declarations_parse_end:
  "declarations (mArgParser (state_of (parse_end p))) = declarations (mArgParser p)"
  by (simp add: parse_end_def declarations_closeOption)

lemma declarations_parse:
  "declarations (mArgParser (state_of (parse args p))) = declarations (mArgParser p)"
  using declarations_parse_loop [of args "p\<lparr>mResult := ParseResult_clear (mResult p)\<rparr>"]
  by (cases "parse_loop args (p\<lparr>mResult := ParseResult_clear (mResult p)\<rparr>)")
     (simp_all add: parse_def declarations_parse_end)

subsection \<open>Starting an option\<close>

lemma hasName_declared [simp]: "hasName n (declared opt) = hasName n opt"
  by (simp add: hasName_def declared_def)

lemma find_named_declared: "find_named n (map declared opts) = find_named n opts"
  by (induction opts) simp_all

lemma mOptions_declarations: "mOptions (declarations ap) = map declared (mOptions ap)"
  by (simp add: declarations_def)

lemma find_named_declarations:
  assumes "declarations ap' = declarations ap"
  shows "find_named n (mOptions ap') = find_named n (mOptions ap)"
proof -
  have "map declared (mOptions ap') = map declared (mOptions ap)"
    using assms mOptions_declarations [of ap'] mOptions_declarations [of ap] by simp
  then show ?thesis
    using find_named_declared [of n "mOptions ap'"] find_named_declared [of n "mOptions ap"]
    by simp
qed

lemma and_then_Normal: "and_then r f = Normal q \<Longrightarrow> \<exists>q0. r = Normal q0 \<and> f q0 = Normal q"
  by (cases r) auto

lemma closeOption_inactive: "mpActiveOption p = None \<Longrightarrow> closeOption p = Normal p"
  by (simp add: closeOption_def)

lemma closeOption_clears:
  "closeOption p = Normal q \<Longrightarrow> mpActiveOption q = None \<and> mIgnoreOptions q = mIgnoreOptions p"
  by (auto simp add: closeOption_def Let_def addError_def write_back_def
        split: option.splits if_splits outcome.splits)

lemma closeOption_errors:
  assumes "closeOption p = Normal q"
  shows "errors (mResult q) = errors (mResult p) \<or>
         (\<exists>i. mpActiveOption p = Some i \<and>
              errors (mResult q) =
                errors (mResult p) @
                  [\<lparr>option = getName (mOptions (mArgParser p) ! i),
                    errorCode = MISSING_ARGUMENT\<rparr>])"
  using assms
  by (auto simp add: closeOption_def Let_def addError_def write_back_def
        split: option.splits if_splits outcome.splits)

text \<open>
  C5, as stated, fails when an option is still active: \<open>startOption\<close> first closes it, as
  it does for every token that starts an option. After \<open>-x\<close> (\<open>maxargs(1)\<close>, its
  variable holding 7 and not yet assigned) the token \<open>--bogus\<close> assigns the flag value 1
  to the variable of \<open>-x\<close> and counts the assignment in its slot; after \<open>-d\<close>
  (\<open>nargs(1)\<close>) the token \<open>--bogus\<close> adds a \<open>MISSING_ARGUMENT\<close> entry for \<open>-d\<close>
  before its own entry.
\<close>

theorem unknown_option_closes_active:
  "find_named (name_part ''--bogus'') (mOptions (mArgParser active_x)) = None \<and>
   mpActiveOption active_x = Some 0 \<and>
   variables (mArgParser active_x) 0 = Scalar 7 \<and>
   mAssignCount (mpValue (mOptions (mArgParser active_x) ! 0)) = 0 \<and>
   variables (mArgParser (state_of (startOption ''--bogus'' active_x))) 0 = Scalar 1 \<and>
   mAssignCount
     (mpValue (mOptions (mArgParser (state_of (startOption ''--bogus'' active_x))) ! 0)) = 1 \<and>
   errors (mResult active_d) = [] \<and>
   errors (mResult (state_of (startOption ''--bogus'' active_d))) =
     [\<lparr>option = ''-d'', errorCode = MISSING_ARGUMENT\<rparr>,
      \<lparr>option = ''--bogus'', errorCode = UNKNOWN_OPTION\<rparr>]"
  by code_simp

text \<open>
  C5, amended: when the name of the token (the part before \<open>=\<close>) is the name of no option,
  \<open>startOption\<close> closes the option that was active, as it does for every token that
  starts an option, and then only appends one \<open>UNKNOWN_OPTION\<close> entry for that name: the
  lookup touches no slot and makes no option active. Started with no active option, it
  changes nothing else in the parser. When it returns, no option is active; the errors are
  those before the token, then a \<open>MISSING_ARGUMENT\<close> entry if the closed option still
  needed an argument, then the one \<open>UNKNOWN_OPTION\<close> entry; and a following token that
  does not start with a dash goes to \<open>addFreeArgument\<close>.
\<close>

theorem unknown_option:
  assumes "find_named (name_part tok) (mOptions (mArgParser p)) = None"
  shows "startOption tok p =
           and_then (closeOption p)
             (\<lambda>q. Normal (addError (name_part tok) UNKNOWN_OPTION q)) \<and>
         (mpActiveOption p = None \<longrightarrow>
            startOption tok p = Normal (addError (name_part tok) UNKNOWN_OPTION p)) \<and>
         (\<forall>q. startOption tok p = Normal q \<longrightarrow>
            mpActiveOption q = None \<and>
            (errors (mResult q) =
               errors (mResult p) @ [\<lparr>option = name_part tok, errorCode = UNKNOWN_OPTION\<rparr>] \<or>
             (\<exists>i. mpActiveOption p = Some i \<and>
                  errors (mResult q) =
                    errors (mResult p) @
                      [\<lparr>option = getName (mOptions (mArgParser p) ! i),
                        errorCode = MISSING_ARGUMENT\<rparr>,
                       \<lparr>option = name_part tok, errorCode = UNKNOWN_OPTION\<rparr>])) \<and>
            (\<forall>nxt. nxt \<noteq> ''--'' \<and> take 1 nxt \<noteq> ''-'' \<longrightarrow>
               parse_arg nxt q = addFreeArgument nxt q))"
proof -
  have closed: "(if haveActiveOption p then closeOption p else Normal p) = closeOption p"
    by (simp add: haveActiveOption_def closeOption_inactive)
  have unknown: "findOption (name_part tok) q = None" if "closeOption p = Normal q" for q
  proof -
    have "declarations (mArgParser q) = declarations (mArgParser p)"
      using declarations_closeOption [of p] that by simp
    then have "find_named (name_part tok) (mOptions (mArgParser q)) =
               find_named (name_part tok) (mOptions (mArgParser p))"
      by (rule find_named_declarations)
    then show ?thesis
      using assms by (simp add: findOption_def)
  qed
  have main: "startOption tok p =
      and_then (closeOption p) (\<lambda>q. Normal (addError (name_part tok) UNKNOWN_OPTION q))"
  proof (cases "closeOption p")
    case (Normal q)
    then show ?thesis
      using unknown [OF Normal] by (simp add: startOption_def closed Let_def)
  next
    case (Thrown x q)
    then show ?thesis
      by (simp add: startOption_def closed)
  qed
  have after: "mpActiveOption q = None \<and>
        (errors (mResult q) =
           errors (mResult p) @ [\<lparr>option = name_part tok, errorCode = UNKNOWN_OPTION\<rparr>] \<or>
         (\<exists>i. mpActiveOption p = Some i \<and>
              errors (mResult q) =
                errors (mResult p) @
                  [\<lparr>option = getName (mOptions (mArgParser p) ! i),
                    errorCode = MISSING_ARGUMENT\<rparr>,
                   \<lparr>option = name_part tok, errorCode = UNKNOWN_OPTION\<rparr>])) \<and>
        (\<forall>nxt. nxt \<noteq> ''--'' \<and> take 1 nxt \<noteq> ''-'' \<longrightarrow> parse_arg nxt q = addFreeArgument nxt q)"
    if started: "startOption tok p = Normal q" for q
  proof -
    obtain q0 where q0: "closeOption p = Normal q0"
      and q: "q = addError (name_part tok) UNKNOWN_OPTION q0"
      using and_then_Normal [OF started [unfolded main]] by auto
    have inactive: "mpActiveOption q = None"
      using closeOption_clears [OF q0] q by (simp add: addError_def)
    have entries: "errors (mResult q) =
           errors (mResult p) @ [\<lparr>option = name_part tok, errorCode = UNKNOWN_OPTION\<rparr>] \<or>
         (\<exists>i. mpActiveOption p = Some i \<and>
              errors (mResult q) =
                errors (mResult p) @
                  [\<lparr>option = getName (mOptions (mArgParser p) ! i),
                    errorCode = MISSING_ARGUMENT\<rparr>,
                   \<lparr>option = name_part tok, errorCode = UNKNOWN_OPTION\<rparr>])"
      using closeOption_errors [OF q0] by (auto simp add: q addError_def)
    have "parse_arg nxt q = addFreeArgument nxt q" if "nxt \<noteq> ''--''" "take 1 nxt \<noteq> ''-''" for nxt
    proof -
      have "take 2 nxt \<noteq> ''--''"
        using that(2) by (cases nxt) auto
      then show ?thesis
        using that inactive by (simp add: parse_arg_def)
    qed
    then show ?thesis using inactive entries by blast
  qed
  show ?thesis
    using main after by (simp add: closeOption_inactive)
qed

theorem unknown_option_witness:
  "startOption ''--bogus'' (new_Parser reg_flag) =
     Normal (addError ''--bogus'' UNKNOWN_OPTION (new_Parser reg_flag)) \<and>
   mResult (state_of (parse [''--bogus'', ''5''] (new_Parser reg_flag))) =
     \<lparr>ignoredArguments = [''5''],
      errors = [\<lparr>option = ''--bogus'', errorCode = UNKNOWN_OPTION\<rparr>]\<rparr> \<and>
   startOption ''--bogus'' active_d =
     and_then (closeOption active_d) (\<lambda>q. Normal (addError ''--bogus'' UNKNOWN_OPTION q)) \<and>
   errors (mResult (state_of (startOption ''--bogus'' active_d))) =
     [\<lparr>option = ''-d'', errorCode = MISSING_ARGUMENT\<rparr>,
      \<lparr>option = ''--bogus'', errorCode = UNKNOWN_OPTION\<rparr>]"
proof -
  have unknown: "find_named (name_part ''--bogus'') (mOptions (mArgParser (new_Parser reg_flag)))
      = None"
    by code_simp
  have unknown_d: "find_named (name_part ''--bogus'') (mOptions (mArgParser active_d)) = None"
    by code_simp
  have inactive: "mpActiveOption (new_Parser reg_flag) = None"
    by (simp add: new_Parser_def)
  have name: "name_part ''--bogus'' = ''--bogus''"
    by code_simp
  have "startOption ''--bogus'' (new_Parser reg_flag) =
      Normal (addError (name_part ''--bogus'') UNKNOWN_OPTION (new_Parser reg_flag))"
    using unknown_option [OF unknown] inactive by blast
  moreover have "startOption ''--bogus'' active_d =
      and_then (closeOption active_d)
        (\<lambda>q. Normal (addError (name_part ''--bogus'') UNKNOWN_OPTION q))"
    using unknown_option [OF unknown_d] by blast
  moreover have "mResult (state_of (parse [''--bogus'', ''5''] (new_Parser reg_flag))) =
     \<lparr>ignoredArguments = [''5''],
      errors = [\<lparr>option = ''--bogus'', errorCode = UNKNOWN_OPTION\<rparr>]\<rparr>"
    by code_simp
  moreover have "errors (mResult (state_of (startOption ''--bogus'' active_d))) =
     [\<lparr>option = ''-d'', errorCode = MISSING_ARGUMENT\<rparr>,
      \<lparr>option = ''--bogus'', errorCode = UNKNOWN_OPTION\<rparr>]"
    by code_simp
  ultimately show ?thesis
    using name by simp
qed

subsection \<open>Facts about single steps\<close>

lemma find_eq_none: "CHR ''='' \<notin> set s \<Longrightarrow> find_eq s = None"
  by (induction s) auto

lemma find_eq_append:
  "CHR ''='' \<notin> set name \<Longrightarrow> find_eq (name @ CHR ''='' # val) = Some (length name)"
  by (induction name) auto

lemma name_part_plain: "CHR ''='' \<notin> set name \<Longrightarrow> name_part name = name \<and> arg_part name = []"
  by (simp add: name_part_def arg_part_def find_eq_none)

lemma name_part_attached:
  "CHR ''='' \<notin> set name \<Longrightarrow>
     name_part (name @ CHR ''='' # val) = name \<and> arg_part (name @ CHR ''='' # val) = val"
  by (simp add: name_part_def arg_part_def find_eq_append)

lemma find_named_Some:
  "find_named n opts = Some i \<Longrightarrow> i < length opts \<and> hasName n (opts ! i)"
  by (induction opts arbitrary: i) (auto split: if_splits)

lemma declarations_nth:
  assumes "declarations ap' = declarations ap"
  shows "length (mOptions ap') = length (mOptions ap)"
    and "i < length (mOptions ap) \<Longrightarrow> declared (mOptions ap' ! i) = declared (mOptions ap ! i)"
proof -
  have eq: "map declared (mOptions ap') = map declared (mOptions ap)"
    using assms mOptions_declarations [of ap'] mOptions_declarations [of ap] by simp
  show len: "length (mOptions ap') = length (mOptions ap)"
    using eq by (rule map_eq_imp_length_eq)
  show "declared (mOptions ap' ! i) = declared (mOptions ap ! i)" if "i < length (mOptions ap)"
    using that len nth_map [of i "mOptions ap'" declared] nth_map [of i "mOptions ap" declared] eq
    by simp
qed

lemma declared_fields:
  "mMaxArgs (declared opt) = mMaxArgs opt" "mMinArgs (declared opt) = mMinArgs opt"
  "mFlagValue (declared opt) = mFlagValue opt" "mChoices (declared opt) = mChoices opt"
  "mpAssignAction (declared opt) = mpAssignAction opt" "getName (declared opt) = getName opt"
  "kind (mpValue (declared opt)) = kind (mpValue opt)"
  by (simp_all add: declared_def getName_def)

lemma declared_eq_fields:
  assumes "declared a = declared b"
  shows "mMaxArgs a = mMaxArgs b \<and> mMinArgs a = mMinArgs b \<and> mFlagValue a = mFlagValue b \<and>
         mChoices a = mChoices b \<and> mpAssignAction a = mpAssignAction b \<and>
         getName a = getName b \<and> kind (mpValue a) = kind (mpValue b)"
  using declared_fields [of a] declared_fields [of b] assms by simp

text \<open>What \<open>Option::setValue\<close> does to the counter of the current occurrence.\<close>

lemma setValue_count:
  "mOptionAssignCount (mpValue (fst (state_of (Option_setValue val (opt, mem))))) =
     (if mChoices opt \<noteq> [] \<and> val \<notin> set (mChoices opt) then mOptionAssignCount (mpValue opt) + 1
      else case mpAssignAction opt of
             None \<Rightarrow> mOptionAssignCount (mpValue opt) + 1
           | Some act \<Rightarrow>
               (case act val of None \<Rightarrow> mOptionAssignCount (mpValue opt)
                | Some v \<Rightarrow> mOptionAssignCount (mpValue opt) + 1))"
  by (simp add: Option_setValue_def slot_setValue_def Value_setValue_def markBadArgument_def
        Let_def split: option.splits sum.splits outcome.splits)

lemma setValue_count_mono:
  "mOptionAssignCount (mpValue opt)
     \<le> mOptionAssignCount (mpValue (fst (state_of (Option_setValue val (opt, mem)))))"
  by (simp add: setValue_count split: option.splits)

text \<open>What \<open>Parser::setValue\<close> leaves as it is, and the entries it can add.\<close>

lemma Parser_setValue_frame:
  "mpActiveOption (state_of (Parser_setValue r val p)) = mpActiveOption p"
  "mIgnoreOptions (state_of (Parser_setValue r val p)) = mIgnoreOptions p"
  "mPosition (state_of (Parser_setValue r val p)) = mPosition p"
  "ignoredArguments (mResult (state_of (Parser_setValue r val p))) = ignoredArguments (mResult p)"
  by (simp_all add: Parser_setValue_def write_back_def addError_def
        split: outcome.splits option.splits)

lemma Parser_setValue_errors:
  "errors (mResult (state_of (Parser_setValue r val p))) = errors (mResult p) \<or>
   (\<exists>n. errors (mResult (state_of (Parser_setValue r val p))) =
          errors (mResult p) @ [\<lparr>option = n, errorCode = INVALID_CHOICE\<rparr>]) \<or>
   (\<exists>n. errors (mResult (state_of (Parser_setValue r val p))) =
          errors (mResult p) @ [\<lparr>option = n, errorCode = CONVERSION_ERROR\<rparr>])"
proof (cases "Option_setValue val (deref r (mArgParser p), variables (mArgParser p))")
  case (Normal om)
  then show ?thesis
    by (simp add: Parser_setValue_def write_back_def)
next
  case (Thrown x om)
  then show ?thesis
    by (cases x) (simp_all add: Parser_setValue_def write_back_def addError_def)
qed

lemma Parser_setValue_option:
  assumes "i < length (mOptions (mArgParser p))"
  shows "mOptions (mArgParser (state_of (Parser_setValue (InOptions i) val p))) ! i =
           fst (state_of (Option_setValue val (mOptions (mArgParser p) ! i, variables (mArgParser p))))"
  using assms
  by (simp add: Parser_setValue_def write_back_def split: outcome.splits option.splits)

lemma on_started_frame:
  "mpActiveOption (on_started i p) = mpActiveOption p"
  "mIgnoreOptions (on_started i p) = mIgnoreOptions p"
  "mPosition (on_started i p) = mPosition p"
  "mResult (on_started i p) = mResult p"
  "variables (mArgParser (on_started i p)) = variables (mArgParser p)"
  "length (mOptions (mArgParser (on_started i p))) = length (mOptions (mArgParser p))"
  "mPositional (mArgParser (on_started i p)) = mPositional (mArgParser p)"
  by (simp_all add: on_started_def)

lemma on_started_option:
  "i < length (mOptions (mArgParser p)) \<Longrightarrow>
     mOptions (mArgParser (on_started i p)) ! i = Option_onOptionStarted (mOptions (mArgParser p) ! i)"
  by (simp add: on_started_def)

subsection \<open>Flags\<close>

lemma started_count:
  "mOptionAssignCount (mpValue (Option_onOptionStarted opt)) = 0 \<and>
   mMaxArgs (Option_onOptionStarted opt) = mMaxArgs opt \<and>
   mMinArgs (Option_onOptionStarted opt) = mMinArgs opt \<and>
   mFlagValue (Option_onOptionStarted opt) = mFlagValue opt"
  by (simp add: Option_onOptionStarted_def Value_onOptionStarted_def)

text \<open>
  Starting an option that takes no argument (\<open>mMaxArgs = 0\<close>) while no option is
  active: its flag value is assigned, and an attached \<open>=value\<close> only adds
  \<open>FLAG_PARAMETER\<close>.
\<close>

lemma startOption_flag:
  assumes inactive: "mpActiveOption p = None"
    and found: "find_named (name_part tok) (mOptions (mArgParser p)) = Some i"
    and flag: "mMaxArgs (mOptions (mArgParser p) ! i) = 0"
  shows "startOption tok p =
           and_then (Parser_setValue (InOptions i) (mFlagValue (mOptions (mArgParser p) ! i))
                       (on_started i p))
             (\<lambda>p2. if arg_part tok \<noteq> []
                    then Normal (addError (name_part tok) FLAG_PARAMETER p2) else Normal p2)"
proof -
  let ?opt = "mOptions (mArgParser p) ! i"
  let ?p1 = "on_started i p"
  have i: "i < length (mOptions (mArgParser p))"
    using find_named_Some [OF found] by simp
  have opt1: "mOptions (mArgParser ?p1) ! i = Option_onOptionStarted ?opt"
    using i by (rule on_started_option)
  have refuse1: "\<not> willAcceptArgument (deref (InOptions i) (mArgParser ?p1))"
    using flag started_count [of ?opt] opt1
    by (simp add: willAcceptArgument_def getOptionAssignCount_def)
  have flagv: "getFlagValue (deref (InOptions i) (mArgParser ?p1)) = mFlagValue ?opt"
    using started_count [of ?opt] opt1 by (simp add: getFlagValue_def)
  define r2 where "r2 = Parser_setValue (InOptions i) (mFlagValue ?opt) ?p1"
  have i1: "i < length (mOptions (mArgParser ?p1))"
    using i by (simp add: on_started_frame)
  have refuse2: "\<not> willAcceptArgument (deref (InOptions i) (mArgParser (state_of r2)))"
  proof -
    have "declared (mOptions (mArgParser (state_of r2)) ! i) = declared (mOptions (mArgParser ?p1) ! i)"
      unfolding r2_def using declarations_Parser_setValue i1 by (rule declarations_nth(2))
    then have "mMaxArgs (mOptions (mArgParser (state_of r2)) ! i) = 0"
      using declared_eq_fields opt1 started_count [of ?opt] flag by metis
    moreover have "0 \<le> mOptionAssignCount (mpValue (mOptions (mArgParser (state_of r2)) ! i))"
      unfolding r2_def Parser_setValue_option [OF i1]
      using setValue_count_mono [of "mOptions (mArgParser ?p1) ! i"] opt1 started_count [of ?opt]
      by simp
    ultimately show ?thesis
      by (simp add: willAcceptArgument_def getOptionAssignCount_def)
  qed
  have "startOption tok p =
      and_then r2
        (\<lambda>p2. if arg_part tok \<noteq> [] then
                 (if willAcceptArgument (deref (InOptions i) (mArgParser p2))
                  then Parser_setValue (InOptions i) (arg_part tok) p2
                  else Normal (addError (name_part tok) FLAG_PARAMETER p2))
               else Normal p2)"
    using inactive found refuse1 flagv
    by (simp add: startOption_def haveActiveOption_def findOption_def Let_def r2_def
          del: deref.simps)
  also have "\<dots> = and_then r2
        (\<lambda>p2. if arg_part tok \<noteq> []
               then Normal (addError (name_part tok) FLAG_PARAMETER p2) else Normal p2)"
    using refuse2 by (cases r2) (simp_all del: deref.simps)
  finally show ?thesis
    by (simp add: r2_def)
qed


lemma new_Parser_fields:
  "mArgParser (new_Parser ap) = ap" "mpActiveOption (new_Parser ap) = None"
  "mIgnoreOptions (new_Parser ap) = False" "mPosition (new_Parser ap) = 0"
  "mResult (new_Parser ap) = \<lparr>ignoredArguments = [], errors = []\<rparr>"
  "(new_Parser ap)\<lparr>mResult := ParseResult_clear (mResult (new_Parser ap))\<rparr> = new_Parser ap"
  by (simp_all add: new_Parser_def ParseResult_clear_def)

lemma parse_single:
  "parse [arg] (new_Parser ap) = and_then (parse_arg arg (new_Parser ap)) parse_end"
  unfolding parse_def new_Parser_fields(6)
  by (cases "parse_arg arg (new_Parser ap)") simp_all

lemma parse_arg_long:
  assumes "take 2 arg = ''--''" and "arg \<noteq> ''--''" and "\<not> mIgnoreOptions p"
  shows "parse_arg arg p = startOption arg p"
  using assms by (simp add: parse_arg_def)

text \<open>
  C4: let \<open>--opt\<close> be the name of an option with \<open>min = max = 0\<close>. Parsing the single
  token \<open>--opt=value\<close> with a non-empty value does what parsing \<open>--opt\<close> does, which is
  to assign the flag value of the option, and then appends one \<open>FLAG_PARAMETER\<close> entry:
  the value after \<open>=\<close> reaches no slot. The result holds exactly one
  \<open>FLAG_PARAMETER\<close> entry.
\<close>

theorem flag_parameter:
  assumes found: "find_named name (mOptions ap) = Some i"
    and arity: "mMinArgs (mOptions ap ! i) = 0 \<and> mMaxArgs (mOptions ap ! i) = 0"
    and long: "take 2 name = ''--'' \<and> name \<noteq> ''--'' \<and> CHR ''='' \<notin> set name"
    and val: "val \<noteq> []"
  shows "parse [name @ CHR ''='' # val] (new_Parser ap) =
           and_then (parse [name] (new_Parser ap))
             (\<lambda>p. Normal (addError name FLAG_PARAMETER p)) \<and>
         parse [name] (new_Parser ap) =
           Parser_setValue (InOptions i) (mFlagValue (mOptions ap ! i))
             (on_started i (new_Parser ap)) \<and>
         (\<forall>p. parse [name @ CHR ''='' # val] (new_Parser ap) = Normal p \<longrightarrow>
            length (filter (\<lambda>e. errorCode e = FLAG_PARAMETER) (errors (mResult p))) = 1)"
proof -
  let ?p0 = "new_Parser ap"
  let ?tok = "name @ CHR ''='' # val"
  define r2 where "r2 = Parser_setValue (InOptions i) (mFlagValue (mOptions ap ! i))
                          (on_started i ?p0)"
  obtain rest where rest: "name = CHR ''-'' # CHR ''-'' # rest"
    using long by (cases name; cases "tl name") auto
  have tok: "take 2 ?tok = ''--'' \<and> ?tok \<noteq> ''--''"
    using rest by simp
  have plain: "name_part name = name \<and> arg_part name = []"
    using long by (simp add: name_part_plain)
  have attached: "name_part ?tok = name \<and> arg_part ?tok = val"
    using long by (simp add: name_part_attached)
  have start_tok: "startOption ?tok ?p0 =
      and_then r2 (\<lambda>p2. Normal (addError name FLAG_PARAMETER p2))"
    using startOption_flag [of ?p0 ?tok i] found arity attached val
    by (simp add: new_Parser_fields r2_def)
  have start_name: "startOption name ?p0 = r2"
    using startOption_flag [of ?p0 name i] found arity plain
    by (cases r2) (simp_all add: new_Parser_fields r2_def)
  have inactive: "mpActiveOption (state_of r2) = None"
    unfolding r2_def by (simp add: Parser_setValue_frame on_started_frame new_Parser_fields)
  have none: "filter (\<lambda>e. errorCode e = FLAG_PARAMETER) (errors (mResult (state_of r2))) = []"
  proof -
    have "errors (mResult (on_started i ?p0)) = []"
      by (simp add: on_started_frame new_Parser_fields)
    then show ?thesis
      unfolding r2_def
      using Parser_setValue_errors [of "InOptions i" "mFlagValue (mOptions ap ! i)"
              "on_started i ?p0"]
      by auto
  qed
  have parse_name: "parse [name] ?p0 = r2"
    using inactive long
    by (cases r2)
       (simp_all add: parse_single parse_arg_long new_Parser_fields start_name parse_end_def
          haveActiveOption_def)
  have parse_tok: "parse [?tok] ?p0 = and_then r2 (\<lambda>p2. Normal (addError name FLAG_PARAMETER p2))"
    using inactive tok
    by (cases r2)
       (simp_all add: parse_single parse_arg_long new_Parser_fields start_tok parse_end_def
          haveActiveOption_def addError_def)
  have count: "length (filter (\<lambda>e. errorCode e = FLAG_PARAMETER) (errors (mResult p))) = 1"
    if "parse [?tok] ?p0 = Normal p" for p
    using that none unfolding parse_tok
    by (cases r2) (auto simp add: addError_def)
  show ?thesis
    using parse_tok parse_name count by (simp add: r2_def)
qed


theorem flag_parameter_witness:
  "parse [''--verbose=yes''] (new_Parser reg_verbose) =
     and_then (parse [''--verbose''] (new_Parser reg_verbose))
       (\<lambda>p. Normal (addError ''--verbose'' FLAG_PARAMETER p)) \<and>
   mResult (state_of (parse [''--verbose=yes''] (new_Parser reg_verbose))) =
     \<lparr>ignoredArguments = [],
      errors = [\<lparr>option = ''--verbose'', errorCode = FLAG_PARAMETER\<rparr>]\<rparr> \<and>
   variables (mArgParser (state_of (parse [''--verbose=yes''] (new_Parser reg_verbose)))) 0 =
     Scalar 1"
proof -
  have found: "find_named ''--verbose'' (mOptions reg_verbose) = Some 0"
    by code_simp
  have arity: "mMinArgs (mOptions reg_verbose ! 0) = 0 \<and> mMaxArgs (mOptions reg_verbose ! 0) = 0"
    by code_simp
  have long: "take 2 ''--verbose'' = ''--'' \<and> ''--verbose'' \<noteq> ''--'' \<and>
              CHR ''='' \<notin> set ''--verbose''"
    by simp
  have val: "''yes'' \<noteq> []"
    by simp
  have "parse [''--verbose'' @ CHR ''='' # ''yes''] (new_Parser reg_verbose) =
     and_then (parse [''--verbose''] (new_Parser reg_verbose))
       (\<lambda>p. Normal (addError ''--verbose'' FLAG_PARAMETER p))"
    using flag_parameter [OF found arity long val] by blast
  moreover have "mResult (state_of (parse [''--verbose=yes''] (new_Parser reg_verbose))) =
     \<lparr>ignoredArguments = [],
      errors = [\<lparr>option = ''--verbose'', errorCode = FLAG_PARAMETER\<rparr>]\<rparr>"
    by code_simp
  moreover have
    "variables (mArgParser (state_of (parse [''--verbose=yes''] (new_Parser reg_verbose)))) 0 =
     Scalar 1"
    by code_simp
  ultimately show ?thesis
    by simp
qed

subsection \<open>Clusters of short options\<close>

lemma assign_flag_frame:
  "mpActiveOption (state_of (assign_flag i p)) = mpActiveOption p"
  "mIgnoreOptions (state_of (assign_flag i p)) = mIgnoreOptions p"
  "declarations (mArgParser (state_of (assign_flag i p))) = declarations (mArgParser p)"
  by (simp_all add: assign_flag_def Parser_setValue_frame on_started_frame
        declarations_Parser_setValue declarations_on_started)

lemma short_name_parts: "name_part [CHR ''-'', c] = (if c = CHR ''='' then ''-'' else [CHR ''-'', c])"
  "c \<noteq> CHR ''='' \<Longrightarrow> arg_part [CHR ''-'', c] = []"
  by (simp_all add: name_part_def arg_part_def)

text \<open>The state in which an option is looked up again has the declarations of the first.\<close>

lemma same_declarations:
  assumes "declarations ap' = declarations ap"
    and "find_named n (mOptions ap) = Some i"
  shows "find_named n (mOptions ap') = Some i"
    and "mMaxArgs (mOptions ap' ! i) = mMaxArgs (mOptions ap ! i)"
    and "mMinArgs (mOptions ap' ! i) = mMinArgs (mOptions ap ! i)"
    and "mpAssignAction (mOptions ap' ! i) = mpAssignAction (mOptions ap ! i)"
    and "mChoices (mOptions ap' ! i) = mChoices (mOptions ap ! i)"
    and "i < length (mOptions ap')"
proof -
  have i: "i < length (mOptions ap)"
    using find_named_Some [OF assms(2)] by simp
  have d: "declared (mOptions ap' ! i) = declared (mOptions ap ! i)"
    using assms(1) i by (rule declarations_nth(2))
  show "find_named n (mOptions ap') = Some i"
    using find_named_declarations [OF assms(1)] assms(2) by simp
  show "mMaxArgs (mOptions ap' ! i) = mMaxArgs (mOptions ap ! i)"
    and "mMinArgs (mOptions ap' ! i) = mMinArgs (mOptions ap ! i)"
    and "mpAssignAction (mOptions ap' ! i) = mpAssignAction (mOptions ap ! i)"
    and "mChoices (mOptions ap' ! i) = mChoices (mOptions ap ! i)"
    using declared_eq_fields [OF d] by simp_all
  show "i < length (mOptions ap')"
    using i declarations_nth(1) [OF assms(1)] by simp
qed

lemma startOption_short_flag:
  assumes "mpActiveOption p = None"
    and "find_named [CHR ''-'', c] (mOptions (mArgParser p)) = Some i"
    and "mMaxArgs (mOptions (mArgParser p) ! i) = 0"
    and "c \<noteq> CHR ''=''"
  shows "startOption [CHR ''-'', c] p = assign_flag i p"
  using startOption_flag [of p "[CHR ''-'', c]" i] assms
  by (cases "assign_flag i p") (simp_all add: short_name_parts assign_flag_def)

lemma startOption_accepting:
  assumes inactive: "mpActiveOption p = None"
    and found: "find_named (name_part tok) (mOptions (mArgParser p)) = Some i"
    and accepts: "mMaxArgs (mOptions (mArgParser p) ! i) \<noteq> 0"
    and plain: "arg_part tok = []"
  shows "startOption tok p = Normal ((on_started i p)\<lparr>mpActiveOption := Some i\<rparr>)"
proof -
  have i: "i < length (mOptions (mArgParser p))"
    using find_named_Some [OF found] by simp
  have "willAcceptArgument (deref (InOptions i) (mArgParser (on_started i p)))"
    using accepts started_count [of "mOptions (mArgParser p) ! i"] on_started_option [OF i]
    by (simp add: willAcceptArgument_def getOptionAssignCount_def) linarith
  then show ?thesis
    using inactive found plain
    by (simp add: startOption_def haveActiveOption_def findOption_def Let_def del: deref.simps)
qed


lemma and_then_cong:
  assumes "\<And>q. r = Normal q \<Longrightarrow> f q = g q"
  shows "and_then r f = and_then r g"
  using assms by (cases r) simp_all

lemma and_then_Normal_id: "and_then r Normal = r"
  by (cases r) simp_all

lemma and_then_parse_end:
  assumes "\<And>q. r = Normal q \<Longrightarrow> mpActiveOption q = None"
  shows "and_then r parse_end = r"
  using assms by (cases r) (simp_all add: parse_end_def haveActiveOption_def)

lemma parse_pair:
  "parse [arg1, arg2] (new_Parser ap) =
     and_then (and_then (parse_arg arg1 (new_Parser ap)) (parse_arg arg2)) parse_end"
  unfolding parse_def new_Parser_fields(6)
  by (cases "parse_arg arg1 (new_Parser ap)"; cases "parse_arg arg2 (state_of (parse_arg arg1 (new_Parser ap)))")
     simp_all

lemma cluster_step:
  assumes "mpActiveOption p = None"
    and "find_named [CHR ''-'', c] (mOptions (mArgParser p)) = Some i"
    and "mMaxArgs (mOptions (mArgParser p) ! i) = 0"
    and "c \<noteq> CHR ''=''"
  shows "startOption_each (c # cs) p = and_then (assign_flag i p) (startOption_each cs)"
  using startOption_short_flag [OF assms]
  by (cases "assign_flag i p") simp_all

lemma cluster_last_accepting:
  assumes "mpActiveOption p = None"
    and "find_named [CHR ''-'', c] (mOptions (mArgParser p)) = Some i"
    and "mMaxArgs (mOptions (mArgParser p) ! i) \<noteq> 0"
    and "c \<noteq> CHR ''=''"
  shows "startOption_each [c] p = Normal ((on_started i p)\<lparr>mpActiveOption := Some i\<rparr>)"
  using startOption_accepting [of p "[CHR ''-'', c]" i] assms
  by (simp add: short_name_parts)

text \<open>
  A token that does not start with a dash, while an option with \<open>min = max = 1\<close> and
  without an assign action has just been started: the token is assigned to the option, and
  the option is closed without a further assignment or entry.
\<close>

lemma parse_arg_single_value:
  assumes i: "i < length (mOptions (mArgParser p))"
    and arity: "mMinArgs (mOptions (mArgParser p) ! i) = 1 \<and> mMaxArgs (mOptions (mArgParser p) ! i) = 1"
    and action: "mpAssignAction (mOptions (mArgParser p) ! i) = None"
    and plain: "val \<noteq> ''--'' \<and> take 1 val \<noteq> ''-''"
    and mode: "\<not> mIgnoreOptions p"
  shows "parse_arg val ((on_started i p)\<lparr>mpActiveOption := Some i\<rparr>) =
           and_then (Parser_setValue (InOptions i) val ((on_started i p)\<lparr>mpActiveOption := Some i\<rparr>))
             (\<lambda>p'. Normal (p'\<lparr>mpActiveOption := None\<rparr>))"
proof -
  let ?q = "(on_started i p)\<lparr>mpActiveOption := Some i\<rparr>"
  let ?opt = "mOptions (mArgParser p) ! i"
  have iq: "i < length (mOptions (mArgParser ?q))"
    using i by (simp add: on_started_frame)
  have optq: "mOptions (mArgParser ?q) ! i = Option_onOptionStarted ?opt"
    using on_started_option [OF i] by simp
  have accept: "willAcceptArgument (deref (InOptions i) (mArgParser ?q))"
    using optq arity started_count [of ?opt]
    by (simp add: willAcceptArgument_def getOptionAssignCount_def)
  have long: "take 2 val \<noteq> ''--''"
    using plain by (cases val) auto
  define r where "r = Parser_setValue (InOptions i) val ?q"
  have step: "parse_arg val ?q =
      and_then r (\<lambda>p'. if \<not> willAcceptArgument (deref (InOptions i) (mArgParser p'))
                        then closeOption p' else Normal p')"
    using plain long mode accept
    by (simp add: parse_arg_def on_started_frame r_def del: deref.simps)
  have closes: "(if \<not> willAcceptArgument (deref (InOptions i) (mArgParser p'))
                 then closeOption p' else Normal p') = Normal (p'\<lparr>mpActiveOption := None\<rparr>)"
    if "r = Normal p'" for p'
  proof -
    have p': "p' = state_of r" using that by simp
    have d: "declared (mOptions (mArgParser p') ! i) = declared (mOptions (mArgParser ?q) ! i)"
      unfolding p' r_def using declarations_Parser_setValue iq by (rule declarations_nth(2))
    have fields: "mMinArgs (mOptions (mArgParser p') ! i) = 1 \<and> mMaxArgs (mOptions (mArgParser p') ! i) = 1"
      using declared_eq_fields [OF d] optq arity started_count [of ?opt] by simp
    have "mOptionAssignCount (mpValue (mOptions (mArgParser p') ! i)) =
            mOptionAssignCount (mpValue (mOptions (mArgParser ?q) ! i)) + 1"
      unfolding p' r_def Parser_setValue_option [OF iq]
      using action optq by (simp add: setValue_count Option_onOptionStarted_def)
    then have count: "mOptionAssignCount (mpValue (mOptions (mArgParser p') ! i)) = 1"
      using optq started_count [of ?opt] by simp
    have active: "mpActiveOption p' = Some i"
      unfolding p' r_def by (simp add: Parser_setValue_frame)
    show ?thesis
      using fields count active
      by (simp add: willAcceptArgument_def getOptionAssignCount_def closeOption_def
            needsMoreArguments_def Let_def)
  qed
  show ?thesis
    unfolding step r_def [symmetric] by (rule and_then_cong) (rule closes)
qed


lemma parse_arg_cluster:
  assumes "\<not> mIgnoreOptions p" and "c1 \<noteq> CHR ''-''"
  shows "parse_arg (CHR ''-'' # c1 # c2 # cs) p = startOption_each (c1 # c2 # cs) p"
  using assms by (simp add: parse_arg_def)

text \<open>
  C2: let \<open>-a\<close>, \<open>-b\<close> and \<open>-d\<close> be names of options, \<open>-a\<close> and \<open>-b\<close> of pure flags
  (\<open>acceptsAnyArguments\<close> is false).
  \<^item> If \<open>-d\<close> is a pure flag as well, parsing the single token \<open>-abd\<close> assigns, in this
    order, the flag value of \<open>-a\<close>, of \<open>-b\<close> and of \<open>-d\<close>, and does nothing else.
  \<^item> If \<open>-d\<close> takes exactly one argument (\<open>min = max = 1\<close>, no assign action), parsing
    \<open>-abd\<close> followed by a token that does not start with a dash assigns the flag values
    of \<open>-a\<close> and \<open>-b\<close>, starts \<open>-d\<close>, assigns the token to \<open>-d\<close>, and closes \<open>-d\<close>.
\<close>

theorem short_option_cluster:
  assumes a: "find_named ''-a'' (mOptions ap) = Some ia"
    and b: "find_named ''-b'' (mOptions ap) = Some ib"
    and d: "find_named ''-d'' (mOptions ap) = Some idd"
    and flag_a: "\<not> acceptsAnyArguments (mOptions ap ! ia)"
    and flag_b: "\<not> acceptsAnyArguments (mOptions ap ! ib)"
  shows "(\<not> acceptsAnyArguments (mOptions ap ! idd) \<longrightarrow>
            parse [''-abd''] (new_Parser ap) =
              and_then (assign_flag ia (new_Parser ap))
                (\<lambda>p1. and_then (assign_flag ib p1) (assign_flag idd))) \<and>
         (mMinArgs (mOptions ap ! idd) = 1 \<and> mMaxArgs (mOptions ap ! idd) = 1 \<and>
          mpAssignAction (mOptions ap ! idd) = None \<and> val \<noteq> ''--'' \<and> take 1 val \<noteq> ''-'' \<longrightarrow>
            parse [''-abd'', val] (new_Parser ap) =
              and_then (assign_flag ia (new_Parser ap))
                (\<lambda>p1. and_then (assign_flag ib p1)
                   (\<lambda>p2. and_then
                      (Parser_setValue (InOptions idd) val
                         ((on_started idd p2)\<lparr>mpActiveOption := Some idd\<rparr>))
                      (\<lambda>p3. Normal (p3\<lparr>mpActiveOption := None\<rparr>)))))"
proof -
  let ?p0 = "new_Parser ap"
  have max_a: "mMaxArgs (mOptions ap ! ia) = 0" and max_b: "mMaxArgs (mOptions ap ! ib) = 0"
    using flag_a flag_b by (simp_all add: acceptsAnyArguments_def)
  have state1: "mpActiveOption p1 = None \<and> \<not> mIgnoreOptions p1 \<and>
                declarations (mArgParser p1) = declarations ap"
    if "assign_flag ia ?p0 = Normal p1" for p1
    using assign_flag_frame [of ia ?p0] that by (simp add: new_Parser_fields)
  have state2: "mpActiveOption p2 = None \<and> \<not> mIgnoreOptions p2 \<and>
                declarations (mArgParser p2) = declarations ap"
    if "assign_flag ia ?p0 = Normal p1" and "assign_flag ib p1 = Normal p2" for p1 p2
    using assign_flag_frame [of ib p1] state1 [OF that(1)] that(2) by simp
  have first: "startOption_each (CHR ''a'' # cs) ?p0 =
      and_then (assign_flag ia ?p0) (startOption_each cs)" for cs
    using a max_a by (intro cluster_step) (simp_all add: new_Parser_fields)
  have second: "startOption_each (CHR ''b'' # cs) p1 =
      and_then (assign_flag ib p1) (startOption_each cs)"
    if "assign_flag ia ?p0 = Normal p1" for p1 cs
    using state1 [OF that] same_declarations(1,2) [OF _ b, of "mArgParser p1"] max_b
    by (intro cluster_step) simp_all
  have all_flags: "parse [''-abd''] ?p0 =
      and_then (assign_flag ia ?p0) (\<lambda>p1. and_then (assign_flag ib p1) (assign_flag idd))"
    if flag_d: "\<not> acceptsAnyArguments (mOptions ap ! idd)"
  proof -
    have max_d: "mMaxArgs (mOptions ap ! idd) = 0"
      using flag_d by (simp add: acceptsAnyArguments_def)
    have third: "startOption_each ''d'' p2 = assign_flag idd p2"
      if "assign_flag ia ?p0 = Normal p1" and "assign_flag ib p1 = Normal p2" for p1 p2
    proof -
      have "startOption_each ''d'' p2 = and_then (assign_flag idd p2) (startOption_each [])"
        using state2 [OF that] same_declarations(1,2) [OF _ d, of "mArgParser p2"] max_d
        by (intro cluster_step) simp_all
      then show ?thesis
        by (cases "assign_flag idd p2") simp_all
    qed
    have loop: "startOption_each ''abd'' ?p0 =
        and_then (assign_flag ia ?p0) (\<lambda>p1. and_then (assign_flag ib p1) (assign_flag idd))"
    proof -
      have inner: "startOption_each ''bd'' p1 = and_then (assign_flag ib p1) (assign_flag idd)"
        if r1: "assign_flag ia ?p0 = Normal p1" for p1
      proof -
        have "startOption_each ''bd'' p1 = and_then (assign_flag ib p1) (startOption_each ''d'')"
          by (rule second [OF r1])
        also have "\<dots> = and_then (assign_flag ib p1) (assign_flag idd)"
          by (rule and_then_cong) (rule third [OF r1])
        finally show ?thesis .
      qed
      show ?thesis
        unfolding first by (rule and_then_cong) (rule inner)
    qed
    have inactive: "mpActiveOption q = None"
      if ended: "startOption_each ''abd'' ?p0 = Normal q" for q
    proof -
      obtain p1 where r1: "assign_flag ia ?p0 = Normal p1"
        and rest1: "and_then (assign_flag ib p1) (assign_flag idd) = Normal q"
        using and_then_Normal [OF ended [unfolded loop]] by blast
      obtain p2 where r2: "assign_flag ib p1 = Normal p2" and r3: "assign_flag idd p2 = Normal q"
        using and_then_Normal [OF rest1] by blast
      show ?thesis
        using assign_flag_frame(1) [of idd p2] state2 [OF r1 r2] r3 by simp
    qed
    have "parse [''-abd''] ?p0 = and_then (startOption_each ''abd'' ?p0) parse_end"
      by (simp add: parse_single parse_arg_cluster new_Parser_fields)
    also have "\<dots> = startOption_each ''abd'' ?p0"
      by (rule and_then_parse_end) (rule inactive)
    finally show ?thesis
      unfolding loop .
  qed
  have with_value: "parse [''-abd'', val] ?p0 =
      and_then (assign_flag ia ?p0)
        (\<lambda>p1. and_then (assign_flag ib p1)
           (\<lambda>p2. and_then
              (Parser_setValue (InOptions idd) val ((on_started idd p2)\<lparr>mpActiveOption := Some idd\<rparr>))
              (\<lambda>p3. Normal (p3\<lparr>mpActiveOption := None\<rparr>))))"
    if one: "mMinArgs (mOptions ap ! idd) = 1 \<and> mMaxArgs (mOptions ap ! idd) = 1"
      and action: "mpAssignAction (mOptions ap ! idd) = None"
      and plain: "val \<noteq> ''--'' \<and> take 1 val \<noteq> ''-''"
  proof -
    let ?given = "\<lambda>p2. and_then
              (Parser_setValue (InOptions idd) val ((on_started idd p2)\<lparr>mpActiveOption := Some idd\<rparr>))
              (\<lambda>p3. Normal (p3\<lparr>mpActiveOption := None\<rparr>))"
    have third: "and_then (startOption_each ''d'' p2) (parse_arg val) = ?given p2"
      if "assign_flag ia ?p0 = Normal p1" and "assign_flag ib p1 = Normal p2" for p1 p2
    proof -
      note s2 = state2 [OF that]
      note same = same_declarations [OF _ d, of "mArgParser p2"]
      have "startOption_each ''d'' p2 = Normal ((on_started idd p2)\<lparr>mpActiveOption := Some idd\<rparr>)"
        using s2 same(1,2) one by (intro cluster_last_accepting) simp_all
      moreover have "parse_arg val ((on_started idd p2)\<lparr>mpActiveOption := Some idd\<rparr>) = ?given p2"
        using s2 same one action plain by (intro parse_arg_single_value) simp_all
      ultimately show ?thesis by simp
    qed
    have assoc: "and_then (and_then r f) g = and_then r (\<lambda>q. and_then (f q) g)" for r f
      and g :: "'a Parser \<Rightarrow> 'a Parser outcome"
      by (cases r) simp_all
    have loop: "and_then (startOption_each ''abd'' ?p0) (parse_arg val) =
        and_then (assign_flag ia ?p0) (\<lambda>p1. and_then (assign_flag ib p1) ?given)"
    proof -
      have inner: "and_then (startOption_each ''bd'' p1) (parse_arg val) =
          and_then (assign_flag ib p1) ?given"
        if r1: "assign_flag ia ?p0 = Normal p1" for p1
      proof -
        have "and_then (startOption_each ''bd'' p1) (parse_arg val) =
            and_then (assign_flag ib p1) (\<lambda>p2. and_then (startOption_each ''d'' p2) (parse_arg val))"
          unfolding second [OF r1] by (rule assoc)
        also have "\<dots> = and_then (assign_flag ib p1) ?given"
          by (rule and_then_cong) (rule third [OF r1])
        finally show ?thesis .
      qed
      have "and_then (startOption_each ''abd'' ?p0) (parse_arg val) =
          and_then (assign_flag ia ?p0)
            (\<lambda>p1. and_then (startOption_each ''bd'' p1) (parse_arg val))"
        unfolding first by (rule assoc)
      also have "\<dots> = and_then (assign_flag ia ?p0) (\<lambda>p1. and_then (assign_flag ib p1) ?given)"
        by (rule and_then_cong) (rule inner)
      finally show ?thesis .
    qed
    have inactive: "mpActiveOption q = None"
      if ended: "and_then (startOption_each ''abd'' ?p0) (parse_arg val) = Normal q" for q
    proof -
      obtain p1 where rest1: "and_then (assign_flag ib p1) ?given = Normal q"
        using and_then_Normal [OF ended [unfolded loop]] by blast
      obtain p2 where rest2: "?given p2 = Normal q"
        using and_then_Normal [OF rest1] by blast
      obtain p3 where "Normal (p3\<lparr>mpActiveOption := None\<rparr>) = Normal q"
        using and_then_Normal [OF rest2] by blast
      then show ?thesis by auto
    qed
    have "parse [''-abd'', val] ?p0 =
        and_then (and_then (startOption_each ''abd'' ?p0) (parse_arg val)) parse_end"
      by (simp add: parse_pair parse_arg_cluster new_Parser_fields)
    also have "\<dots> = and_then (startOption_each ''abd'' ?p0) (parse_arg val)"
      by (rule and_then_parse_end) (rule inactive)
    finally show ?thesis
      unfolding loop .
  qed
  show ?thesis
    using all_flags with_value by blast
qed


theorem short_option_cluster_witness:
  "parse [''-abd''] (new_Parser reg_abd) =
     and_then (assign_flag 0 (new_Parser reg_abd))
       (\<lambda>p1. and_then (assign_flag 1 p1) (assign_flag 2)) \<and>
   map (variables (mArgParser (state_of (parse [''-abd''] (new_Parser reg_abd))))) [0, 1, 2] =
     [Scalar 1, Scalar 1, Scalar 1] \<and>
   parse [''-abd'', ''4213''] (new_Parser reg_abd_value) =
     and_then (assign_flag 0 (new_Parser reg_abd_value))
       (\<lambda>p1. and_then (assign_flag 1 p1)
          (\<lambda>p2. and_then
             (Parser_setValue (InOptions 2) ''4213'' ((on_started 2 p2)\<lparr>mpActiveOption := Some 2\<rparr>))
             (\<lambda>p3. Normal (p3\<lparr>mpActiveOption := None\<rparr>)))) \<and>
   map (variables (mArgParser (state_of (parse [''-abd'', ''4213''] (new_Parser reg_abd_value)))))
     [0, 1, 2] = [Scalar 1, Scalar 1, Scalar 4213] \<and>
   mResult (state_of (parse [''-abd'', ''4213''] (new_Parser reg_abd_value))) =
     \<lparr>ignoredArguments = [], errors = []\<rparr>"
proof -
  have names: "find_named ''-a'' (mOptions reg_abd) = Some 0"
    "find_named ''-b'' (mOptions reg_abd) = Some 1"
    "find_named ''-d'' (mOptions reg_abd) = Some 2"
    by code_simp+
  have flags: "\<not> acceptsAnyArguments (mOptions reg_abd ! 0)"
    "\<not> acceptsAnyArguments (mOptions reg_abd ! 1)"
    "\<not> acceptsAnyArguments (mOptions reg_abd ! 2)"
    by code_simp+
  have names': "find_named ''-a'' (mOptions reg_abd_value) = Some 0"
    "find_named ''-b'' (mOptions reg_abd_value) = Some 1"
    "find_named ''-d'' (mOptions reg_abd_value) = Some 2"
    by code_simp+
  have flags': "\<not> acceptsAnyArguments (mOptions reg_abd_value ! 0)"
    "\<not> acceptsAnyArguments (mOptions reg_abd_value ! 1)"
    by code_simp+
  have one: "mMinArgs (mOptions reg_abd_value ! 2) = 1 \<and> mMaxArgs (mOptions reg_abd_value ! 2) = 1 \<and>
      mpAssignAction (mOptions reg_abd_value ! 2) = None \<and> ''4213'' \<noteq> ''--'' \<and>
      take 1 ''4213'' \<noteq> ''-''"
    by code_simp
  have first: "parse [''-abd''] (new_Parser reg_abd) =
     and_then (assign_flag 0 (new_Parser reg_abd))
       (\<lambda>p1. and_then (assign_flag 1 p1) (assign_flag 2))"
    using short_option_cluster [OF names flags(1,2)] flags(3) by blast
  have second: "parse [''-abd'', ''4213''] (new_Parser reg_abd_value) =
     and_then (assign_flag 0 (new_Parser reg_abd_value))
       (\<lambda>p1. and_then (assign_flag 1 p1)
          (\<lambda>p2. and_then
             (Parser_setValue (InOptions 2) ''4213'' ((on_started 2 p2)\<lparr>mpActiveOption := Some 2\<rparr>))
             (\<lambda>p3. Normal (p3\<lparr>mpActiveOption := None\<rparr>))))"
    using short_option_cluster [OF names' flags'(1,2), of "''4213''"] one by blast
  have vals: "map (variables (mArgParser (state_of (parse [''-abd''] (new_Parser reg_abd)))))
      [0, 1, 2] = [Scalar 1, Scalar 1, Scalar 1]"
    by code_simp
  have vals': "map (variables (mArgParser (state_of
      (parse [''-abd'', ''4213''] (new_Parser reg_abd_value))))) [0, 1, 2] =
      [Scalar 1, Scalar 1, Scalar 4213]"
    by code_simp
  have result: "mResult (state_of (parse [''-abd'', ''4213''] (new_Parser reg_abd_value))) =
     \<lparr>ignoredArguments = [], errors = []\<rparr>"
    by code_simp
  show ?thesis
    using first second vals vals' result by (intro conjI)
qed

subsection \<open>After the token \<open>--\<close>\<close>

lemma Parser_setValue_positional:
  "mOptions (mArgParser (state_of (Parser_setValue (InPositional j) val p))) = mOptions (mArgParser p)"
  by (simp add: Parser_setValue_def write_back_def split: outcome.splits option.splits)

lemma addFreeArgument_while_frame:
  "mOptions (mArgParser (state_of (addFreeArgument_while arg p))) = mOptions (mArgParser p) \<and>
   mpActiveOption (state_of (addFreeArgument_while arg p)) = mpActiveOption p \<and>
   mIgnoreOptions (state_of (addFreeArgument_while arg p)) = mIgnoreOptions p"
proof (induction arg p rule: addFreeArgument_while.induct)
  case (1 arg p)
  show ?case
  proof (cases "mPosition p < length (mPositional (mArgParser p))")
    case True
    show ?thesis
    proof (cases "willAcceptArgument (deref (InPositional (mPosition p)) (mArgParser p))")
      case True
      with \<open>mPosition p < length (mPositional (mArgParser p))\<close> show ?thesis
        by (subst (1 2 3) addFreeArgument_while.simps)
           (simp add: Parser_setValue_positional Parser_setValue_frame)
    next
      case False
      with \<open>mPosition p < length (mPositional (mArgParser p))\<close> "1.IH" show ?thesis
        by (subst (1 2 3) addFreeArgument_while.simps) simp
    qed
  next
    case False
    then show ?thesis
      by (subst (1 2 3) addFreeArgument_while.simps) (simp add: push_ignored_def)
  qed
qed

lemma addFreeArgument_frame:
  "mOptions (mArgParser (state_of (addFreeArgument arg p))) = mOptions (mArgParser p)"
  "mpActiveOption (state_of (addFreeArgument arg p)) = mpActiveOption p"
  "mIgnoreOptions (state_of (addFreeArgument arg p)) = mIgnoreOptions p"
  using addFreeArgument_while_frame [of arg "p\<lparr>mPosition := mPosition p + 1\<rparr>"]
  by (simp_all add: addFreeArgument_def Parser_setValue_positional Parser_setValue_frame
        push_ignored_def)

lemma addFreeArguments_frame:
  "mOptions (mArgParser (state_of (addFreeArguments args p))) = mOptions (mArgParser p) \<and>
   mpActiveOption (state_of (addFreeArguments args p)) = mpActiveOption p \<and>
   mIgnoreOptions (state_of (addFreeArguments args p)) = mIgnoreOptions p"
proof (induction args arbitrary: p)
  case Nil
  then show ?case by simp
next
  case (Cons arg args)
  show ?case
    using addFreeArgument_frame [of arg p] Cons.IH
    by (cases "addFreeArgument arg p") simp_all
qed

text \<open>
  In ignore-options mode the loop of \<open>parse\<close> skips every further \<open>--\<close> and hands every
  other token to \<open>addFreeArgument\<close>.
\<close>

lemma ignore_mode_loop:
  "mIgnoreOptions p \<Longrightarrow>
     parse_loop args p = addFreeArguments (filter (\<lambda>arg. arg \<noteq> ''--'') args) p"
proof (induction args arbitrary: p)
  case Nil
  then show ?case by simp
next
  case (Cons arg args)
  show ?case
  proof (cases "arg = ''--''")
    case True
    have same: "p\<lparr>mIgnoreOptions := True\<rparr> = p"
      using Cons.prems by simp
    have "parse_loop (arg # args) p = parse_loop args p"
      using True by (simp add: parse_arg_def same)
    then show ?thesis
      using True Cons.IH [OF Cons.prems] by simp
  next
    case False
    have step: "parse_arg arg p = addFreeArgument arg p"
      using False Cons.prems by (simp add: parse_arg_def)
    show ?thesis
    proof (cases "addFreeArgument arg p")
      case (Normal q)
      then have "mIgnoreOptions q"
        using addFreeArgument_frame(3) [of arg p] Cons.prems by simp
      then show ?thesis
        using False step Normal Cons.IH by simp
    next
      case (Thrown x q)
      then show ?thesis
        using False step by simp
    qed
  qed
qed

lemma after_dash_dash:
  "parse_loop (''--'' # rest) p =
     addFreeArguments (filter (\<lambda>arg. arg \<noteq> ''--'') rest) (p\<lparr>mIgnoreOptions := True\<rparr>)"
  using ignore_mode_loop [of "p\<lparr>mIgnoreOptions := True\<rparr>" rest]
  by (simp add: parse_arg_def)


lemma addFreeArguments_single: "addFreeArguments [arg] p = addFreeArgument arg p"
  by (cases "addFreeArgument arg p") simp_all

lemma parse_loop_Cons: "parse_loop (arg # args) p = and_then (parse_arg arg p) (parse_loop args)"
  by (cases "parse_arg arg p") simp_all

lemma parse_new: "parse args (new_Parser ap) = and_then (parse_loop args (new_Parser ap)) parse_end"
  unfolding parse_def new_Parser_fields(6) ..

text \<open>
  C3, amended: after a bare \<open>--\<close>, every further \<open>--\<close> is skipped and every other token is
  handed to \<open>addFreeArgument\<close>, in order, which routes it to the positional cursor or the
  free-argument list; no token is matched as an option, and the options of the parser stay
  as they were when \<open>--\<close> was read. In particular, when \<open>--value\<close> names an option that
  takes exactly one argument (\<open>min = max = 1\<close>, no assign action), parsing \<open>--value\<close>,
  an argument that does not start with a dash, \<open>--\<close> and a last token assigns the argument
  to \<open>--value\<close> and hands the last token to \<open>addFreeArgument\<close>.
\<close>

theorem option_terminator:
  "parse_loop (''--'' # rest) p =
     addFreeArguments (filter (\<lambda>arg. arg \<noteq> ''--'') rest) (p\<lparr>mIgnoreOptions := True\<rparr>) \<and>
   mOptions (mArgParser (state_of (parse_loop (''--'' # rest) p))) = mOptions (mArgParser p) \<and>
   (find_named ''--value'' (mOptions ap) = Some i \<and>
    mMinArgs (mOptions ap ! i) = 1 \<and> mMaxArgs (mOptions ap ! i) = 1 \<and>
    mpAssignAction (mOptions ap ! i) = None \<and>
    val \<noteq> ''--'' \<and> take 1 val \<noteq> ''-'' \<and> skipped \<noteq> ''--'' \<longrightarrow>
      parse [''--value'', val, ''--'', skipped] (new_Parser ap) =
        and_then
          (Parser_setValue (InOptions i) val
             ((on_started i (new_Parser ap))\<lparr>mpActiveOption := Some i\<rparr>))
          (\<lambda>q. addFreeArgument skipped (q\<lparr>mpActiveOption := None, mIgnoreOptions := True\<rparr>)))"
proof -
  have untouched: "mOptions (mArgParser (state_of (parse_loop (''--'' # rest) p))) =
      mOptions (mArgParser p)"
    unfolding after_dash_dash
    using addFreeArguments_frame [of "filter (\<lambda>arg. arg \<noteq> ''--'') rest" "p\<lparr>mIgnoreOptions := True\<rparr>"]
    by simp
  have example: "parse [''--value'', val, ''--'', skipped] (new_Parser ap) =
        and_then
          (Parser_setValue (InOptions i) val
             ((on_started i (new_Parser ap))\<lparr>mpActiveOption := Some i\<rparr>))
          (\<lambda>q. addFreeArgument skipped (q\<lparr>mpActiveOption := None, mIgnoreOptions := True\<rparr>))"
    if found: "find_named ''--value'' (mOptions ap) = Some i"
      and one: "mMinArgs (mOptions ap ! i) = 1 \<and> mMaxArgs (mOptions ap ! i) = 1"
      and action: "mpAssignAction (mOptions ap ! i) = None"
      and plain: "val \<noteq> ''--'' \<and> take 1 val \<noteq> ''-''"
      and skipped: "skipped \<noteq> ''--''"
  proof -
    let ?p0 = "new_Parser ap"
    let ?q1 = "(on_started i ?p0)\<lparr>mpActiveOption := Some i\<rparr>"
    define r where "r = Parser_setValue (InOptions i) val ?q1"
    let ?rest = "\<lambda>q. addFreeArgument skipped (q\<lparr>mpActiveOption := None, mIgnoreOptions := True\<rparr>)"
    have i: "i < length (mOptions ap)"
      using find_named_Some [OF found] by simp
    have start: "parse_arg ''--value'' ?p0 = Normal ?q1"
    proof -
      have "parse_arg ''--value'' ?p0 = startOption ''--value'' ?p0"
        by (rule parse_arg_long) (simp_all add: new_Parser_fields)
      also have "\<dots> = Normal ?q1"
        using found one
        by (intro startOption_accepting) (simp_all add: new_Parser_fields name_part_plain)
      finally show ?thesis .
    qed
    have assign: "parse_arg val ?q1 = and_then r (\<lambda>p'. Normal (p'\<lparr>mpActiveOption := None\<rparr>))"
      unfolding r_def using i one action plain
      by (intro parse_arg_single_value) (simp_all add: new_Parser_fields)
    have tail: "parse_loop [''--'', skipped] (q\<lparr>mpActiveOption := None\<rparr>) = ?rest q" for q
      unfolding after_dash_dash using skipped
      by (simp add: addFreeArguments_single del: addFreeArguments.simps)
    have loop: "parse_loop [''--value'', val, ''--'', skipped] ?p0 = and_then r ?rest"
    proof -
      have "parse_loop [''--value'', val, ''--'', skipped] ?p0 =
          and_then (and_then r (\<lambda>p'. Normal (p'\<lparr>mpActiveOption := None\<rparr>)))
            (parse_loop [''--'', skipped])"
        by (simp only: parse_loop_Cons [of "''--value''"] start and_then.simps
              parse_loop_Cons [of val] assign)
      also have "\<dots> = and_then r ?rest"
        by (cases r) (simp_all only: and_then.simps tail)
      finally show ?thesis .
    qed
    have inactive: "mpActiveOption q = None" if ended: "and_then r ?rest = Normal q" for q
    proof -
      obtain q2 where "?rest q2 = Normal q"
        using and_then_Normal [OF ended] by blast
      then show ?thesis
        using addFreeArgument_frame(2) [of skipped "q2\<lparr>mpActiveOption := None, mIgnoreOptions := True\<rparr>"]
        by simp
    qed
    have "parse [''--value'', val, ''--'', skipped] ?p0 = and_then (and_then r ?rest) parse_end"
      unfolding parse_new loop ..
    also have "\<dots> = and_then r ?rest"
      by (rule and_then_parse_end) (rule inactive)
    finally show ?thesis
      unfolding r_def .
  qed
  show ?thesis
    using after_dash_dash [of rest p] untouched example by blast
qed


theorem option_terminator_witness:
  "parse [''--value'', ''5'', ''--'', ''--skipped''] (new_Parser reg_value) =
     and_then
       (Parser_setValue (InOptions 0) ''5''
          ((on_started 0 (new_Parser reg_value))\<lparr>mpActiveOption := Some 0\<rparr>))
       (\<lambda>q. addFreeArgument ''--skipped'' (q\<lparr>mpActiveOption := None, mIgnoreOptions := True\<rparr>)) \<and>
   map (variables (mArgParser (state_of
       (parse [''--value'', ''5'', ''--'', ''--skipped''] (new_Parser reg_value))))) [0, 1] =
     [Scalar 5, Scalar 7] \<and>
   mResult (state_of (parse [''--value'', ''5'', ''--'', ''--skipped''] (new_Parser reg_value))) =
     \<lparr>ignoredArguments = [''--skipped''], errors = []\<rparr>"
proof -
  have declared_so: "find_named ''--value'' (mOptions reg_value) = Some 0 \<and>
      mMinArgs (mOptions reg_value ! 0) = 1 \<and> mMaxArgs (mOptions reg_value ! 0) = 1 \<and>
      mpAssignAction (mOptions reg_value ! 0) = None \<and>
      ''5'' \<noteq> ''--'' \<and> take 1 ''5'' \<noteq> ''-'' \<and> ''--skipped'' \<noteq> ''--''"
    by code_simp
  have routed: "parse [''--value'', ''5'', ''--'', ''--skipped''] (new_Parser reg_value) =
     and_then
       (Parser_setValue (InOptions 0) ''5''
          ((on_started 0 (new_Parser reg_value))\<lparr>mpActiveOption := Some 0\<rparr>))
       (\<lambda>q. addFreeArgument ''--skipped'' (q\<lparr>mpActiveOption := None, mIgnoreOptions := True\<rparr>))"
    using option_terminator [of "[]" "new_Parser reg_value" reg_value 0 "''5''" "''--skipped''"]
      declared_so
    by blast
  have stored: "map (variables (mArgParser (state_of
       (parse [''--value'', ''5'', ''--'', ''--skipped''] (new_Parser reg_value))))) [0, 1] =
     [Scalar 5, Scalar 7]"
    by code_simp
  have reported:
    "mResult (state_of (parse [''--value'', ''5'', ''--'', ''--skipped''] (new_Parser reg_value))) =
     \<lparr>ignoredArguments = [''--skipped''], errors = []\<rparr>"
    by code_simp
  show ?thesis
    using routed stored reported by (intro conjI)
qed

text \<open>
  C3, as stated, fails for a second \<open>--\<close>: it is a token after the bare \<open>--\<close>, but it is
  neither assigned to a positional (the parser has none) nor appended to the free
  arguments, as any other token is.
\<close>

theorem second_terminator_dropped:
  "length (mPositional reg_flag) = 0 \<and>
   ignoredArguments (mResult (state_of (parse [''--'', ''--''] (new_Parser reg_flag)))) = [] \<and>
   ignoredArguments (mResult (state_of (parse [''--'', ''x''] (new_Parser reg_flag)))) = [''x'']"
  by code_simp

text \<open>
  C10, amended: when \<open>--\<close> is read while an option is active, the option stays active and
  is not closed. Of the tokens that follow, every further \<open>--\<close> is skipped and every other
  one is handed to \<open>addFreeArgument\<close>, which does not look at the active option: the
  options of the parser stay as they were. At the end of the input \<open>parse\<close> closes the
  option: it reports \<open>MISSING_ARGUMENT\<close> if the option needs more arguments; otherwise, if
  it can still take one and none was assigned through it, \<open>Option::setValue\<close> is called
  with the flag value; otherwise nothing is assigned.
\<close>

theorem active_option_after_terminator:
  assumes "mpActiveOption p = Some i"
  shows "parse_loop (''--'' # rest) p =
           addFreeArguments (filter (\<lambda>arg. arg \<noteq> ''--'') rest) (p\<lparr>mIgnoreOptions := True\<rparr>) \<and>
         (\<forall>q. parse_loop (''--'' # rest) p = Normal q \<longrightarrow>
            mpActiveOption q = Some i \<and> mOptions (mArgParser q) = mOptions (mArgParser p) \<and>
            parse_end q =
              (let opt = mOptions (mArgParser p) ! i in
               if needsMoreArguments opt
               then Normal ((addError (getName opt) MISSING_ARGUMENT q)\<lparr>mpActiveOption := None\<rparr>)
               else if willAcceptArgument opt \<and> \<not> wasAssignedThroughThisOption opt
               then (case Option_setValue (getFlagValue opt) (opt, variables (mArgParser q)) of
                       Normal om \<Rightarrow>
                         Normal ((write_back (InOptions i) om q)\<lparr>mpActiveOption := None\<rparr>)
                     | Thrown x om \<Rightarrow> Thrown x (write_back (InOptions i) om q))
               else Normal (q\<lparr>mpActiveOption := None\<rparr>)))"
proof -
  let ?args = "filter (\<lambda>arg. arg \<noteq> ''--'') rest"
  let ?p = "p\<lparr>mIgnoreOptions := True\<rparr>"
  have kept: "mpActiveOption q = Some i \<and> mOptions (mArgParser q) = mOptions (mArgParser p)"
    if ended: "parse_loop (''--'' # rest) p = Normal q" for q
    using addFreeArguments_frame [of ?args ?p] ended [unfolded after_dash_dash] assms by simp
  have closing: "parse_end q =
      (let opt = mOptions (mArgParser p) ! i in
       if needsMoreArguments opt
       then Normal ((addError (getName opt) MISSING_ARGUMENT q)\<lparr>mpActiveOption := None\<rparr>)
       else if willAcceptArgument opt \<and> \<not> wasAssignedThroughThisOption opt
       then (case Option_setValue (getFlagValue opt) (opt, variables (mArgParser q)) of
               Normal om \<Rightarrow> Normal ((write_back (InOptions i) om q)\<lparr>mpActiveOption := None\<rparr>)
             | Thrown x om \<Rightarrow> Thrown x (write_back (InOptions i) om q))
       else Normal (q\<lparr>mpActiveOption := None\<rparr>))"
    if ended: "parse_loop (''--'' # rest) p = Normal q" for q
    using kept [OF ended]
    by (simp add: parse_end_def haveActiveOption_def closeOption_def)
  show ?thesis
    using after_dash_dash [of rest p] kept closing by blast
qed

theorem active_option_after_terminator_witness:
  "mpActiveOption (state_of (parse_loop [''-x''] (new_Parser reg_optional))) = Some 0 \<and>
   parse_loop [''--'', ''5''] (state_of (parse_loop [''-x''] (new_Parser reg_optional))) =
     addFreeArguments [''5'']
       ((state_of (parse_loop [''-x''] (new_Parser reg_optional)))\<lparr>mIgnoreOptions := True\<rparr>) \<and>
   variables (mArgParser (state_of (parse [''-x'', ''--'', ''5''] (new_Parser reg_optional)))) 0 =
     Scalar 1 \<and>
   mResult (state_of (parse [''-x'', ''--'', ''5''] (new_Parser reg_optional))) =
     \<lparr>ignoredArguments = [''5''], errors = []\<rparr> \<and>
   variables (mArgParser (state_of (parse [''-d'', ''--'', ''5''] (new_Parser reg_abd_value)))) 2 =
     Scalar 7 \<and>
   mResult (state_of (parse [''-d'', ''--'', ''5''] (new_Parser reg_abd_value))) =
     \<lparr>ignoredArguments = [''5''],
      errors = [\<lparr>option = ''-d'', errorCode = MISSING_ARGUMENT\<rparr>]\<rparr>"
proof -
  have active: "mpActiveOption (state_of (parse_loop [''-x''] (new_Parser reg_optional))) = Some 0"
    by code_simp
  have routed:
    "parse_loop [''--'', ''5''] (state_of (parse_loop [''-x''] (new_Parser reg_optional))) =
     addFreeArguments [''5'']
       ((state_of (parse_loop [''-x''] (new_Parser reg_optional)))\<lparr>mIgnoreOptions := True\<rparr>)"
    using active_option_after_terminator [OF active, of "[''5'']"] by simp
  have flag: "variables (mArgParser (state_of
      (parse [''-x'', ''--'', ''5''] (new_Parser reg_optional)))) 0 = Scalar 1"
    by code_simp
  have free: "mResult (state_of (parse [''-x'', ''--'', ''5''] (new_Parser reg_optional))) =
     \<lparr>ignoredArguments = [''5''], errors = []\<rparr>"
    by code_simp
  have kept: "variables (mArgParser (state_of
      (parse [''-d'', ''--'', ''5''] (new_Parser reg_abd_value)))) 2 = Scalar 7"
    by code_simp
  have missing: "mResult (state_of (parse [''-d'', ''--'', ''5''] (new_Parser reg_abd_value))) =
     \<lparr>ignoredArguments = [''5''],
      errors = [\<lparr>option = ''-d'', errorCode = MISSING_ARGUMENT\<rparr>]\<rparr>"
    by code_simp
  show ?thesis
    using active routed flag free kept missing by (intro conjI)
qed

text \<open>
  C10, as stated, fails for a second \<open>--\<close> read in ignore-options mode while \<open>-x\<close> is
  active: it is routed neither to a positional (there is none) nor to the free arguments.
\<close>

theorem terminator_skipped_while_active:
  "length (mPositional reg_optional) = 0 \<and>
   mpActiveOption (state_of (parse_loop [''-x'', ''--''] (new_Parser reg_optional))) = Some 0 \<and>
   mIgnoreOptions (state_of (parse_loop [''-x'', ''--''] (new_Parser reg_optional))) \<and>
   ignoredArguments (mResult (state_of
     (parse [''-x'', ''--'', ''--''] (new_Parser reg_optional)))) = []"
  by code_simp

subsection \<open>Exclusive groups\<close>

text \<open>\<open>map_modify\<close> on a map whose keys ascend strictly, as those of a \<open>std::map\<close> do.\<close>

lemma map_modify_keys:
  "set (map fst (map_modify k f d m)) = insert k (set (map fst m))"
proof (induction m)
  case Nil
  then show ?case by simp
next
  case (Cons c m)
  obtain k' x where c: "c = (k', x)" by (cases c)
  show ?case
    using Cons c by (cases "k = k'"; cases "k < k'") auto
qed

lemma map_modify_sorted:
  "sorted_wrt (<) (map fst m) \<Longrightarrow> sorted_wrt (<) (map fst (map_modify k f d m))"
proof (induction m)
  case Nil
  then show ?case by simp
next
  case (Cons c m)
  obtain k' x where c: "c = (k', x)" by (cases c)
  show ?case
  proof (cases "k = k'")
    case True
    then show ?thesis using Cons.prems c by simp
  next
    case False
    show ?thesis
    proof (cases "k < k'")
      case True
      then show ?thesis using Cons.prems c False by auto
    next
      case greater: False
      have "k' < k" using False greater by simp
      then show ?thesis
        using Cons c False greater map_modify_keys [of k f d m] by auto
    qed
  qed
qed

lemma map_of_above:
  fixes m :: "(string \<times> 'a) list"
  shows "\<forall>k' \<in> set (map fst m). k < k' \<Longrightarrow> map_of m k = None"
  by (induction m) auto

lemma map_modify_lookup:
  "sorted_wrt (<) (map fst m) \<Longrightarrow>
     map_of (map_modify k f d m) =
       (map_of m)(k \<mapsto> f (case map_of m k of None \<Rightarrow> d | Some x \<Rightarrow> x))"
proof (induction m)
  case Nil
  then show ?case by simp
next
  case (Cons c m)
  obtain k' x where c: "c = (k', x)" by (cases c)
  show ?case
  proof (cases "k = k'")
    case True
    then show ?thesis using c by auto
  next
    case False
    show ?thesis
    proof (cases "k < k'")
      case True
      have "\<forall>j \<in> set (map fst m). k < j"
        using Cons.prems c True by auto
      then have "map_of m k = None"
        by (rule map_of_above)
      then show ?thesis
        using c False True by auto
    next
      case greater: False
      then show ?thesis
        using Cons c False by auto
    qed
  qed
qed


text \<open>The map that the first loop of \<open>reportExclusiveViolations\<close> builds.\<close>

lemma exclusive_counts_map:
  assumes "sorted_wrt (<) (map fst counts)"
  shows "sorted_wrt (<) (map fst (exclusive_counts ap opts counts)) \<and>
         map_of (exclusive_counts ap opts counts) n =
           (if filter (exclusive_member ap n) opts = [] then map_of counts n
            else Some ((case map_of counts n of None \<Rightarrow> [] | Some v \<Rightarrow> v) @
                       map getName (filter (exclusive_member ap n) opts)))"
  using assms
proof (induction opts arbitrary: counts)
  case Nil
  then show ?case by simp
next
  case (Cons opt opts)
  define counts' where "counts' =
    (case getGroup ap opt of
       Some g \<Rightarrow>
         (if mIsExclusive g \<and> wasAssigned opt
          then map_modify (mName g) (\<lambda>v. v @ [getName opt]) [] counts
          else counts)
     | None \<Rightarrow> counts)"
  have step: "exclusive_counts ap (opt # opts) counts = exclusive_counts ap opts counts'"
    by (simp add: counts'_def)
  have sorted': "sorted_wrt (<) (map fst counts')"
    using Cons.prems by (simp add: counts'_def map_modify_sorted split: option.splits)
  have lookup': "map_of counts' n =
      (if exclusive_member ap n opt
       then Some ((case map_of counts n of None \<Rightarrow> [] | Some v \<Rightarrow> v) @ [getName opt])
       else map_of counts n)"
    using Cons.prems
    by (auto simp add: counts'_def exclusive_member_def map_modify_lookup split: option.splits)
  show ?case
    unfolding step using Cons.IH [OF sorted'] lookup' by simp
qed

lemma report_exclusive_errors:
  "report_exclusive cs res =
     res\<lparr>errors := errors res @
        map (\<lambda>c. \<lparr>option = hd (snd c), errorCode = EXCLUSIVE_OPTION\<rparr>)
          (filter (\<lambda>c. 1 < length (snd c)) cs)\<rparr>"
  by (induction cs arbitrary: res) (simp_all add: emplace_error_def)

text \<open>
  C6: \<open>reportExclusiveViolations\<close> appends one \<open>EXCLUSIVE_OPTION\<close> entry for each name
  of an exclusive group of which more than one option was assigned, and nothing else: the
  entries follow the ascending order of the group names, no group name occurs twice, and
  the entry of a group carries the name of the first declared option among the assigned
  ones of the group.
\<close>

theorem exclusive_violations:
  "\<exists>groups. sorted_wrt (<) groups \<and>
      set groups = {n. 1 < length (exclusive_members ap n)} \<and>
      reportExclusiveViolations ap res =
        res\<lparr>errors := errors res @
           map (\<lambda>n. \<lparr>option = getName (hd (exclusive_members ap n)),
                      errorCode = EXCLUSIVE_OPTION\<rparr>) groups\<rparr>"
proof -
  define cs where "cs = exclusive_counts ap (mOptions ap) []"
  define groups where "groups = map fst (filter (\<lambda>c. 1 < length (snd c)) cs)"
  have counts: "sorted_wrt (<) (map fst cs)"
    and lookup: "map_of cs n =
      (if exclusive_members ap n = [] then None
       else Some (map getName (exclusive_members ap n)))" for n
    using exclusive_counts_map [of "[]" ap "mOptions ap" n]
    by (simp_all add: cs_def exclusive_members_def)
  have distinct: "distinct (map fst cs)"
    using counts strict_sorted_iff by blast
  have entry: "snd c = map getName (exclusive_members ap (fst c)) \<and>
               exclusive_members ap (fst c) \<noteq> []" if "c \<in> set cs" for c
  proof -
    have "map_of cs (fst c) = Some (snd c)"
      using that distinct by simp
    then show ?thesis
      using lookup [of "fst c"] by (simp split: if_splits)
  qed
  have present: "(n, map getName (exclusive_members ap n)) \<in> set cs"
    if "exclusive_members ap n \<noteq> []" for n
    using lookup [of n] that by (simp add: map_of_SomeD)
  have sorted: "sorted_wrt (<) groups"
    using counts unfolding groups_def sorted_wrt_map by (rule sorted_wrt_filter)
  have members: "set groups = {n. 1 < length (exclusive_members ap n)}"
  proof (intro set_eqI iffI)
    fix n
    assume "n \<in> set groups"
    then obtain c where "c \<in> set cs" and "1 < length (snd c)" and "fst c = n"
      by (auto simp add: groups_def)
    then show "n \<in> {n. 1 < length (exclusive_members ap n)}"
      using entry [of c] by auto
  next
    fix n
    assume "n \<in> {n. 1 < length (exclusive_members ap n)}"
    then have many: "1 < length (exclusive_members ap n)" by simp
    then have "exclusive_members ap n \<noteq> []" by auto
    then have "(n, map getName (exclusive_members ap n)) \<in> set cs"
      by (rule present)
    then show "n \<in> set groups"
      using many by (force simp add: groups_def)
  qed
  have entries: "map (\<lambda>c. \<lparr>option = hd (snd c), errorCode = EXCLUSIVE_OPTION\<rparr>)
        (filter (\<lambda>c. 1 < length (snd c)) cs) =
      map (\<lambda>n. \<lparr>option = getName (hd (exclusive_members ap n)),
                 errorCode = EXCLUSIVE_OPTION\<rparr>) groups"
    unfolding groups_def map_map
    by (rule map_cong) (use entry in \<open>auto simp add: hd_map\<close>)
  have "reportExclusiveViolations ap res =
        res\<lparr>errors := errors res @
           map (\<lambda>n. \<lparr>option = getName (hd (exclusive_members ap n)),
                      errorCode = EXCLUSIVE_OPTION\<rparr>) groups\<rparr>"
    unfolding reportExclusiveViolations_def cs_def [symmetric] report_exclusive_errors entries ..
  then show ?thesis
    using sorted members by blast
qed


text \<open>
  An example: \<open>-a\<close> and \<open>-b\<close> are declared, in this order, in the exclusive group
  \<open>Mode\<close>. When both are given, \<open>-b\<close> first, the one entry names \<open>-a\<close>.
\<close>

lemma exclusive_violations_example:
  "fst (parse_args [''-b'', ''-c'', ''-a''] reg_mode) =
     Returns \<lparr>ignoredArguments = [],
              errors = [\<lparr>option = ''-a'', errorCode = EXCLUSIVE_OPTION\<rparr>]\<rparr> \<and>
   fst (parse_args [''-b'', ''-c''] reg_mode) = Returns \<lparr>ignoredArguments = [], errors = []\<rparr>"
  by code_simp

subsection \<open>Parsing again\<close>










































































text \<open>
  An example: after \<open>-abd\<close> has set the three variables to 1, parsing \<open>-a\<close> leaves the
  variables of \<open>-b\<close> and \<open>-d\<close> at the value that the reset gives them.
\<close>

lemma parse_args_again_example:
  "map (variables (snd (parse_args [''-abd''] reg_abd))) [0, 1, 2] =
     [Scalar 1, Scalar 1, Scalar 1] \<and>
   map (variables (snd (parse_args [''-a''] (snd (parse_args [''-abd''] reg_abd))))) [0, 1, 2] =
     [Scalar 1, Scalar 0, Scalar 0] \<and>
   fst (parse_args [''-a''] (snd (parse_args [''-abd''] reg_abd))) =
     Returns \<lparr>ignoredArguments = [], errors = []\<rparr>"
  by code_simp

end
